theory Spec2Isabelle
  imports Main "HOL-Library.Word"
begin

unbundle bit_operations_syntax

section \<open>Data model\<close>

type_synonym u8 = "8 word"
type_synonym u32 = "32 word"
type_synonym u64 = "64 word"

text \<open>
  \<^verbatim>\<open>struct taic_priv\<close> of \<^verbatim>\<open>drivers/irqchip/irq-riscv-taic.c\<close>. The two cpumasks are sets
  of logical cpu numbers, \<^verbatim>\<open>regs\<close> is the virtual address \<^verbatim>\<open>ioremap\<close> returned (0 is NULL).
  The field \<^verbatim>\<open>size\<close> is called \<open>size_r\<close> here; the spinlock is only initialised by the driver
  and never taken, so it carries no state.
\<close>

record taic_priv =
  smask :: "nat set"
  umask :: "nat set"
  regs :: u64
  start :: u64
  size_r :: u64
  lq_num :: u8
  gq_num :: u8

text \<open>
  \<^verbatim>\<open>struct taic_handler\<close>: \<open>priv\<close> is a pointer into the kernel heap (0 is NULL), so that all
  handler slots claimed by one instance share that instance's \<^verbatim>\<open>taic_priv\<close>.
\<close>

record taic_handler =
  present :: bool
  priv :: nat

text \<open>The user-interrupt CSRs the hooks touch, one file of them per hart.\<close>

datatype csr_id = CSR_SIDELEG | CSR_UIE | CSR_UIP | CSR_UEPC | CSR_UTVEC | CSR_USCRATCH

text \<open>The part of \<^verbatim>\<open>struct pt_regs\<close> that \<^verbatim>\<open>uintr_set\<close> reads.\<close>

record pt_regs =
  uie :: u64
  uepc :: u64
  utvec :: u64
  uscratch :: u64
  uip :: u64

text \<open>The part of \<^verbatim>\<open>struct thread_struct\<close> and \<^verbatim>\<open>struct task_struct\<close> used by the hooks.\<close>

record thread_struct =
  thread_is_uintr_enabled :: bool
  lq_idx :: u64

record task_struct =
  thread :: thread_struct

text \<open>
  Accesses to hardware in program order: a CSR update on a hart with the value the CSR
  holds afterwards, and a 64-bit store to a device register.
\<close>

datatype hw_event = Ev_csr nat csr_id u64 | Ev_writeq u64 u64

text \<open>The messages the driver prints, with the context number where the source prints it.\<close>

datatype klog_msg =
    Warn_on_regs
  | Warn_gq_num_default nat
  | Warn_lq_num_default nat
  | Warn_on_nr_contexts
  | Err_parse_parent nat
  | Warn_parse_hartid nat
  | Warn_invalid_cpuid nat
  | Warn_handler_present nat
  | Info_available u8 u8

text \<open>
  The state the two source files share: the two per-cpu handler tables
  (\<^verbatim>\<open>DEFINE_PER_CPU\<close>), the heap of \<^verbatim>\<open>taic_priv\<close> objects, the set of mapped register windows
  (by the virtual address of their base), the contents of device memory, the CSR file of every
  hart, the trace of hardware accesses, and the kernel log.
\<close>

record machine =
  taic_shandlers :: "nat \<Rightarrow> taic_handler"
  taic_uhandlers :: "nat \<Rightarrow> taic_handler"
  heap :: "nat \<Rightarrow> taic_priv option"
  iomem :: "u64 set"
  mmio :: "u64 \<Rightarrow> u64"
  csr :: "nat \<Rightarrow> csr_id \<Rightarrow> u64"
  events :: "hw_event list"
  klog :: "klog_msg list"

section \<open>Constants\<close>

definition DEFAULT_GQ_NUM :: nat where "DEFAULT_GQ_NUM = 4"
definition DEFAULT_LQ_NUM :: nat where "DEFAULT_LQ_NUM = 8"
definition LQ_OFFSET :: u64 where "LQ_OFFSET = 0x1000"
definition LQ_SIZE :: u64 where "LQ_SIZE = 0x1000"

text \<open>
  Modelled from the spec: the errno constants \<^verbatim>\<open>ENOMEM\<close>, \<^verbatim>\<open>EIO\<close> and \<^verbatim>\<open>EINVAL\<close> come from a
  header that is not among the sources. The spec only says that an error is returned as a
  negative status; the values are the ones of the kernel's errno-base.h.
\<close>

definition EIO :: int where "EIO = 5"
definition ENOMEM :: int where "ENOMEM = 12"
definition EINVAL :: int where "EINVAL = 22"

section \<open>Hardware access primitives\<close>

text \<open>
  Modelled from the spec: \<^verbatim>\<open>writeq\<close>, \<^verbatim>\<open>csr_read\<close>, \<^verbatim>\<open>csr_write\<close>, \<^verbatim>\<open>csr_set\<close> and
  \<^verbatim>\<open>csr_clear\<close> are kernel macros whose definitions are not among the sources. The
  specification describes them as a single register write to the controller, and as reading,
  writing, setting bits of and clearing bits of an architectural register of the executing
  hart: a store to device memory, and a read, a write, an OR with a mask and an AND with the
  complement of a mask on a CSR.
\<close>

definition writeq :: "u64 \<Rightarrow> u64 \<Rightarrow> machine \<Rightarrow> machine" where
  "writeq v a m = m\<lparr>mmio := (mmio m)(a := v), events := events m @ [Ev_writeq a v]\<rparr>"

definition csr_read :: "nat \<Rightarrow> csr_id \<Rightarrow> machine \<Rightarrow> u64" where
  "csr_read cpu r m = csr m cpu r"

definition csr_write :: "nat \<Rightarrow> csr_id \<Rightarrow> u64 \<Rightarrow> machine \<Rightarrow> machine" where
  "csr_write cpu r v m =
     m\<lparr>csr := (csr m)(cpu := (csr m cpu)(r := v)), events := events m @ [Ev_csr cpu r v]\<rparr>"

definition csr_set :: "nat \<Rightarrow> csr_id \<Rightarrow> u64 \<Rightarrow> machine \<Rightarrow> machine" where
  "csr_set cpu r v m = csr_write cpu r (csr_read cpu r m OR v) m"

definition csr_clear :: "nat \<Rightarrow> csr_id \<Rightarrow> u64 \<Rightarrow> machine \<Rightarrow> machine" where
  "csr_clear cpu r v m = csr_write cpu r (csr_read cpu r m AND NOT v) m"

section \<open>The controller driver\<close>

text \<open>
  What the platform code answers for one interrupt-routing entry of the node:
  the return value of \<^verbatim>\<open>of_irq_parse_one\<close>, \<^verbatim>\<open>parent.args[0]\<close>, the return value of
  \<^verbatim>\<open>riscv_of_parent_hartid\<close>, and what \<^verbatim>\<open>riscv_hartid_to_cpuid\<close> returns for that hart.
\<close>

record of_irq_entry =
  parse_ret :: int
  args0 :: u32
  hartid_ret :: int
  cpuid :: int

text \<open>
  The device-tree node as the driver sees it: the register window (start and
  \<^verbatim>\<open>resource_size\<close>) when \<^verbatim>\<open>of_address_to_resource\<close> succeeds, the two optional 8-bit
  properties, and the routing entries (\<^verbatim>\<open>of_irq_count\<close> is their number).
\<close>

record device_node =
  of_resource :: "(u64 \<times> u64) option"
  gq_num_prop :: "u8 option"
  lq_num_prop :: "u8 option"
  of_irqs :: "of_irq_entry list"

text \<open>The object \<^verbatim>\<open>kzalloc\<close> returns: every field zero.\<close>

definition zero_priv :: taic_priv where
  "zero_priv = \<lparr>smask = {}, umask = {}, regs = 0, start = 0, size_r = 0, lq_num = 0, gq_num = 0\<rparr>"

text \<open>
  Modelled from the spec: the kernel services \<^verbatim>\<open>kfree\<close>, \<^verbatim>\<open>iounmap\<close> and the
  \<^verbatim>\<open>pr_*\<close> and \<^verbatim>\<open>WARN_ON\<close> logging macros are not among the sources. The specification
  says that a failed registration releases the instance and its mapped memory and that
  conflicts and defaults are logged: freeing removes the object from the heap, unmapping
  removes the window from the mapped set, logging appends to the kernel log.
  \<open>priv_store\<close> is an assignment through the pointer \<open>p\<close> to a field of a
  \<^verbatim>\<open>taic_priv\<close>; in \<^verbatim>\<open>__taic_init\<close> the pointer is the object just allocated, which stays
  allocated while it is written.
\<close>

definition priv_store :: "nat \<Rightarrow> (taic_priv \<Rightarrow> taic_priv) \<Rightarrow> machine \<Rightarrow> machine" where
  "priv_store p f m = m\<lparr>heap := (heap m)(p := map_option f (heap m p))\<rparr>"

definition kfree :: "nat \<Rightarrow> machine \<Rightarrow> machine" where
  "kfree p m = m\<lparr>heap := (heap m)(p := None)\<rparr>"

definition iounmap :: "u64 \<Rightarrow> machine \<Rightarrow> machine" where
  "iounmap a m = m\<lparr>iomem := iomem m - {a}\<rparr>"

definition pr_log :: "klog_msg \<Rightarrow> machine \<Rightarrow> machine" where
  "pr_log msg m = m\<lparr>klog := klog m @ [msg]\<rparr>"

text \<open>
  One iteration of the \<^verbatim>\<open>for\<close> loop of \<^verbatim>\<open>__taic_init\<close>, for context \<open>i\<close>: the local
  \<^verbatim>\<open>error\<close> and the state go in and come out. \<^verbatim>\<open>IRQ_U_SOFT\<close> and \<^verbatim>\<open>IRQ_S_SOFT\<close> are
  macros of a header that is not among the sources and are parameters here.
\<close>

definition taic_init_context ::
  "u32 \<Rightarrow> u32 \<Rightarrow> nat \<Rightarrow> nat \<Rightarrow> of_irq_entry \<Rightarrow> int \<times> machine \<Rightarrow> int \<times> machine" where
  "taic_init_context IRQ_U_SOFT IRQ_S_SOFT p i e em =
     (let error = fst em; m = snd em in
      if parse_ret e \<noteq> 0 then (error, pr_log (Err_parse_parent i) m)
      else if args0 e \<noteq> IRQ_U_SOFT \<and> args0 e \<noteq> IRQ_S_SOFT then (error, m)
      else
        let error = hartid_ret e in
        if error < 0 then (error, pr_log (Warn_parse_hartid i) m)
        else if cpuid e < 0 then (error, pr_log (Warn_invalid_cpuid i) m)
        else
          let cpu = nat (cpuid e) in
          if args0 e = IRQ_U_SOFT then
            let handler = taic_uhandlers m cpu;
                m = priv_store p (\<lambda>v. v\<lparr>umask := insert cpu (umask v)\<rparr>) m
            in if present handler then (error, pr_log (Warn_handler_present i) m)
               else (error, m\<lparr>taic_uhandlers :=
                      (taic_uhandlers m)(cpu := handler\<lparr>present := True, priv := p\<rparr>)\<rparr>)
          else
            let handler = taic_shandlers m cpu;
                m = priv_store p (\<lambda>v. v\<lparr>smask := insert cpu (smask v)\<rparr>) m
            in if present handler then (error, pr_log (Warn_handler_present i) m)
               else (error, m\<lparr>taic_shandlers :=
                      (taic_shandlers m)(cpu := handler\<lparr>present := True, priv := p\<rparr>)\<rparr>))"

text \<open>The loop \<^verbatim>\<open>for (i = 0; i < nr_contexts; i++)\<close>, over the entries from context \<open>i\<close> on.\<close>

fun taic_init_loop ::
  "u32 \<Rightarrow> u32 \<Rightarrow> nat \<Rightarrow> nat \<Rightarrow> of_irq_entry list \<Rightarrow> int \<times> machine \<Rightarrow> int \<times> machine" where
  "taic_init_loop U S p i [] em = em"
| "taic_init_loop U S p i (e # es) em =
     taic_init_loop U S p (Suc i) es (taic_init_context U S p i e em)"

text \<open>
  \<^verbatim>\<open>__taic_init\<close>. \<open>kz\<close> is the pointer \<^verbatim>\<open>kzalloc\<close> returns and \<open>io\<close> the address
  \<^verbatim>\<open>ioremap\<close> returns (0 is NULL for both). The result is the returned status and the state.
\<close>

definition taic_init ::
  "u32 \<Rightarrow> u32 \<Rightarrow> nat \<Rightarrow> u64 \<Rightarrow> device_node \<Rightarrow> machine \<Rightarrow> int \<times> machine" where
  "taic_init IRQ_U_SOFT IRQ_S_SOFT kz io node m =
     (if kz = 0 then (- ENOMEM, m)
      else
        let m = m\<lparr>heap := (heap m)(kz := Some zero_priv)\<rparr> in
        case of_resource node of
          None \<Rightarrow> (- EIO, kfree kz m)
        | Some (res_start, res_size) \<Rightarrow>
            let m = priv_store kz (\<lambda>v. v\<lparr>start := res_start\<rparr>) m;
                m = priv_store kz (\<lambda>v. v\<lparr>size_r := res_size\<rparr>) m;
                m = priv_store kz (\<lambda>v. v\<lparr>regs := io\<rparr>) m
            in
            if io = 0 then (- EIO, kfree kz (pr_log Warn_on_regs m))
            else
              let m = m\<lparr>iomem := insert io (iomem m)\<rparr>;
                  m = (case gq_num_prop node of
                         Some g \<Rightarrow> priv_store kz (\<lambda>v. v\<lparr>gq_num := g\<rparr>) m
                       | None \<Rightarrow> priv_store kz (\<lambda>v. v\<lparr>gq_num := of_nat DEFAULT_GQ_NUM\<rparr>)
                                   (pr_log (Warn_gq_num_default DEFAULT_GQ_NUM) m));
                  m = (case lq_num_prop node of
                         Some l \<Rightarrow> priv_store kz (\<lambda>v. v\<lparr>lq_num := l\<rparr>) m
                       | None \<Rightarrow> priv_store kz (\<lambda>v. v\<lparr>lq_num := of_nat DEFAULT_LQ_NUM\<rparr>)
                                   (pr_log (Warn_lq_num_default DEFAULT_LQ_NUM) m));
                  error = - EINVAL;
                  nr_contexts = length (of_irqs node)
              in
              if nr_contexts = 0 then
                (error, kfree kz (iounmap io (pr_log Warn_on_nr_contexts m)))
              else
                let em = taic_init_loop IRQ_U_SOFT IRQ_S_SOFT kz 0 (of_irqs node) (error, m);
                    m = snd em
                in
                (case heap m kz of
                   None \<Rightarrow> (0, m)
                 | Some v \<Rightarrow> (0, pr_log (Info_available (gq_num v) (lq_num v)) m)))"

text \<open>
  \<^verbatim>\<open>taic_ulq_write_cpuid\<close>, run on \<open>cpu\<close> (\<^verbatim>\<open>this_cpu_ptr\<close>). The result is \<open>None\<close> when the
  slot is present and its \<open>priv\<close> pointer is not an allocated object (the C code would
  dereference a wild pointer); otherwise the returned status and the state.
\<close>

definition taic_ulq_write_cpuid :: "nat \<Rightarrow> u64 \<Rightarrow> u64 \<Rightarrow> machine \<Rightarrow> (int \<times> machine) option" where
  "taic_ulq_write_cpuid cpu lq hartid m =
     (let handler = taic_uhandlers m cpu in
      if \<not> present handler then Some (- EINVAL, m)
      else
        case heap m (priv handler) of
          None \<Rightarrow> None
        | Some v \<Rightarrow>
            let idx_high = drop_bit 32 lq;
                idx_low = lq AND 0xffffffff;
                lq_n = (ucast (lq_num v) :: u64);
                reg = regs v + LQ_OFFSET + (idx_high * lq_n + idx_low) * LQ_SIZE + 0x38
            in Some (0, writeq hartid reg m))"

text \<open>\<^verbatim>\<open>taic_free_lq\<close>, run on \<open>cpu\<close>, with the same convention.\<close>

definition taic_free_lq :: "nat \<Rightarrow> u64 \<Rightarrow> machine \<Rightarrow> (int \<times> machine) option" where
  "taic_free_lq cpu lq m =
     (let handler = taic_uhandlers m cpu in
      if \<not> present handler then Some (- EINVAL, m)
      else
        case heap m (priv handler) of
          None \<Rightarrow> None
        | Some v \<Rightarrow>
            let reg = regs v + 0x8
            in Some (0, writeq lq reg m))"

section \<open>The trap-boundary hooks\<close>

definition is_uintr_enabled :: "task_struct \<Rightarrow> bool" where
  "is_uintr_enabled t = thread_is_uintr_enabled (thread t)"

text \<open>
  The system call \<^verbatim>\<open>uintr_enable\<close> on the task \<open>t\<close> that is \<^verbatim>\<open>current\<close>: the returned value
  and the task afterwards.
\<close>

definition uintr_enable :: "u64 \<Rightarrow> task_struct \<Rightarrow> int \<times> task_struct" where
  "uintr_enable lq t =
     (if is_uintr_enabled t then (0, t)
      else
        let t = t\<lparr>thread := (thread t)\<lparr>lq_idx := lq\<rparr>\<rparr>;
            t = t\<lparr>thread := (thread t)\<lparr>thread_is_uintr_enabled := True\<rparr>\<rparr>
        in (0, t))"

text \<open>
  \<^verbatim>\<open>uintr_clear\<close>, run on \<open>cpu\<close> for the task \<open>t\<close> that is \<^verbatim>\<open>current\<close>. The status of
  \<^verbatim>\<open>taic_ulq_write_cpuid\<close> is dropped, as in the source. The hook assigns to no field of the
  task or of the saved registers.
\<close>

definition uintr_clear :: "nat \<Rightarrow> pt_regs \<Rightarrow> task_struct \<Rightarrow> machine \<Rightarrow> machine option" where
  "uintr_clear cpu rg t m =
     (if \<not> is_uintr_enabled t then Some m
      else map_option snd (taic_ulq_write_cpuid cpu (lq_idx (thread t)) (NOT 0) m))"

text \<open>
  \<^verbatim>\<open>uintr_set\<close>, run on \<open>cpu\<close> (\<^verbatim>\<open>smp_processor_id()\<close>) for the task \<open>t\<close> that is
  \<^verbatim>\<open>current\<close>. \<^verbatim>\<open>IE_USIE\<close> is a macro of a header that is not among the sources and is a
  parameter here.
\<close>

definition uintr_set :: "u64 \<Rightarrow> nat \<Rightarrow> pt_regs \<Rightarrow> task_struct \<Rightarrow> machine \<Rightarrow> machine option" where
  "uintr_set IE_USIE cpu rg t m =
     (let m = csr_set cpu CSR_SIDELEG IE_USIE m;
          hartid = (of_nat cpu :: u64)
      in
      if \<not> is_uintr_enabled t then
        let m = csr_clear cpu CSR_UIE IE_USIE m;
            m = csr_clear cpu CSR_UIP IE_USIE m
        in Some m
      else
        case taic_ulq_write_cpuid cpu (lq_idx (thread t)) hartid m of
          None \<Rightarrow> None
        | Some (ret, m) \<Rightarrow>
            let m = csr_write cpu CSR_UIE (uie rg) m;
                m = csr_write cpu CSR_UEPC (uepc rg) m;
                m = csr_write cpu CSR_UTVEC (utvec rg) m;
                m = csr_write cpu CSR_USCRATCH (uscratch rg) m;
                uip_hw = csr_read cpu CSR_UIP m;
                m = csr_write cpu CSR_UIP (uip rg OR uip_hw) m
            in Some m)"

section \<open>Driving the hooks for one context\<close>

text \<open>
  The events in the life of one execution context: the enablement system call, a return to
  user mode on a core (where the trap-exit path calls \<^verbatim>\<open>uintr_set\<close>), and a trap from user
  mode on a core (where the trap-entry path calls \<^verbatim>\<open>uintr_clear\<close>).
\<close>

datatype step = is_Enable: Enable u64 | Trap_exit nat pt_regs | Trap_entry nat pt_regs

fun do_step :: "u64 \<Rightarrow> step \<Rightarrow> task_struct \<times> machine \<Rightarrow> (task_struct \<times> machine) option" where
  "do_step IE_USIE (Enable lq) (t, m) = Some (snd (uintr_enable lq t), m)"
| "do_step IE_USIE (Trap_exit cpu rg) (t, m) = map_option (Pair t) (uintr_set IE_USIE cpu rg t m)"
| "do_step IE_USIE (Trap_entry cpu rg) (t, m) = map_option (Pair t) (uintr_clear cpu rg t m)"

fun run :: "u64 \<Rightarrow> step list \<Rightarrow> task_struct \<times> machine \<Rightarrow> (task_struct \<times> machine) option" where
  "run IE_USIE [] s = Some s"
| "run IE_USIE (x # xs) s =
     (case do_step IE_USIE x s of None \<Rightarrow> None | Some s' \<Rightarrow> run IE_USIE xs s')"

text \<open>
  Where the context is resident in user mode after a sequence of steps: on the core of the
  last trap exit when no trap entry followed it. The system call runs in the kernel and
  does not change where the context is.
\<close>

fun resident :: "nat option \<Rightarrow> step list \<Rightarrow> nat option" where
  "resident r [] = r"
| "resident r (Enable lq # xs) = resident r xs"
| "resident r (Trap_exit cpu rg # xs) = resident (Some cpu) xs"
| "resident r (Trap_entry cpu rg # xs) = resident None xs"

section \<open>The register layout as the specification words it\<close>

text \<open>
  The byte offset of the ownership register of the slot with halves \<open>idx_high\<close> and
  \<open>idx_low\<close>, over the natural numbers:
  \<^verbatim>\<open>LQ_OFFSET + (idx_high * lq_num + idx_low) * LQ_SIZE + 0x38\<close> with both constants
  \<^verbatim>\<open>0x1000\<close>. This definition follows the specification, not the code.
\<close>

definition lq_owner_offset :: "nat \<Rightarrow> nat \<Rightarrow> nat \<Rightarrow> nat" where
  "lq_owner_offset lq_n idx_high idx_low = 0x1000 + (idx_high * lq_n + idx_low) * 0x1000 + 0x38"

text \<open>The address of that register in the window of the instance \<open>v\<close>, for the slot index \<open>lq\<close>.\<close>

definition lq_owner_reg :: "taic_priv \<Rightarrow> u64 \<Rightarrow> u64" where
  "lq_owner_reg v lq =
     regs v + of_nat (lq_owner_offset (unat (lq_num v)) (unat (drop_bit 32 lq))
                        (unat (lq AND 0xffffffff)))"

text \<open>
  The conditions under which one iteration of the registration loop reaches a
  \<^verbatim>\<open>continue\<close> in the state \<open>m\<close>: the entry does not parse, its cause is neither of the two
  software interrupts, its hart or cpu is unknown, or the slot it names is already present.
\<close>

definition entry_skipped :: "u32 \<Rightarrow> u32 \<Rightarrow> machine \<Rightarrow> of_irq_entry \<Rightarrow> bool" where
  "entry_skipped IRQ_U_SOFT IRQ_S_SOFT m e \<longleftrightarrow>
     parse_ret e \<noteq> 0 \<or> (args0 e \<noteq> IRQ_U_SOFT \<and> args0 e \<noteq> IRQ_S_SOFT) \<or>
     hartid_ret e < 0 \<or> cpuid e < 0 \<or>
     present ((if args0 e = IRQ_U_SOFT then taic_uhandlers m else taic_shandlers m)
                (nat (cpuid e)))"

section \<open>Example inputs\<close>

text \<open>
  A machine after boot on which one controller instance with eight local queues serves
  cores 0 and 1 at user level and core 0 at supervisor level; core 2 has no controller.
  Device memory and the CSRs hold zero.
\<close>

definition ex_priv :: taic_priv where
  "ex_priv = \<lparr>smask = {0}, umask = {0, 1}, regs = 0xffffffc800000000, start = 0x10000000,
     size_r = 0x1000000, lq_num = 8, gq_num = 4\<rparr>"

definition ex_machine :: machine where
  "ex_machine = \<lparr>
     taic_shandlers = (\<lambda>c. \<lparr>present = False, priv = 0\<rparr>)(0 := \<lparr>present = True, priv = 1\<rparr>),
     taic_uhandlers = (\<lambda>c. \<lparr>present = False, priv = 0\<rparr>)
        (0 := \<lparr>present = True, priv = 1\<rparr>, 1 := \<lparr>present = True, priv = 1\<rparr>),
     heap = (\<lambda>p. None)(1 := Some ex_priv),
     iomem = {0xffffffc800000000},
     mmio = (\<lambda>a. 0),
     csr = (\<lambda>c r. 0),
     events = [],
     klog = []\<rparr>"

text \<open>A task that has not enabled user interrupts, and a record of saved registers.\<close>

definition ex_task :: task_struct where
  "ex_task = \<lparr>thread = \<lparr>thread_is_uintr_enabled = False, lq_idx = 0\<rparr>\<rparr>"

definition ex_regs :: pt_regs where
  "ex_regs = \<lparr>uie = 1, uepc = 0x10400, utvec = 0x10000, uscratch = 0x7ff0, uip = 0\<rparr>"

text \<open>
  A second node, all of whose routing entries are skipped on \<open>ex_machine\<close>: one does not
  parse, one names a slot that is already claimed, one has a cause that is neither software
  interrupt, one has no hart and one has no cpu.
\<close>

definition ex_node :: device_node where
  "ex_node = \<lparr>of_resource = Some (0x20000000, 0x1000000), gq_num_prop = None,
     lq_num_prop = None,
     of_irqs = [\<lparr>parse_ret = - 22, args0 = 0, hartid_ret = 0, cpuid = 0\<rparr>,
                \<lparr>parse_ret = 0, args0 = 0, hartid_ret = 0, cpuid = 1\<rparr>,
                \<lparr>parse_ret = 0, args0 = 9, hartid_ret = 0, cpuid = 0\<rparr>,
                \<lparr>parse_ret = 0, args0 = 1, hartid_ret = - 19, cpuid = 3\<rparr>,
                \<lparr>parse_ret = 0, args0 = 1, hartid_ret = 0, cpuid = - 2\<rparr>]\<rparr>"

text \<open>The same machine with bits 0 and 1 set in every CSR of every hart.\<close>

definition ex_pending :: machine where
  "ex_pending = ex_machine\<lparr>csr := (\<lambda>c r. 3)\<rparr>"

text \<open>The task after it has called the enablement call with queue index 3.\<close>

definition ex_enabled :: task_struct where
  "ex_enabled = snd (uintr_enable 3 ex_task)"

text \<open>
  A third node with four routing entries that all resolve: the user-level slot of core 1
  (claimed on \<open>ex_machine\<close>), the user-level slot of core 2 (free), the supervisor-level
  slot of core 0 (claimed), and the user-level slot of core 2 once more.
\<close>

definition ex_node2 :: device_node where
  "ex_node2 = \<lparr>of_resource = Some (0x20000000, 0x1000000), gq_num_prop = None,
     lq_num_prop = None,
     of_irqs = [\<lparr>parse_ret = 0, args0 = 0, hartid_ret = 0, cpuid = 1\<rparr>,
                \<lparr>parse_ret = 0, args0 = 0, hartid_ret = 0, cpuid = 2\<rparr>,
                \<lparr>parse_ret = 0, args0 = 1, hartid_ret = 0, cpuid = 0\<rparr>,
                \<lparr>parse_ret = 0, args0 = 0, hartid_ret = 0, cpuid = 2\<rparr>]\<rparr>"

text \<open>
  The example machine after six CSR writes on core 2, which has no controller: the
  delegation bit, the four saved registers of \<open>ex_regs\<close>, and the pending register.
\<close>

definition ex_exit2 :: machine where
  "ex_exit2 =
     csr_write 2 CSR_UIP 0 (csr_write 2 CSR_USCRATCH 0x7ff0 (csr_write 2 CSR_UTVEC 0x10000
       (csr_write 2 CSR_UEPC 0x10400 (csr_write 2 CSR_UIE 1
         (csr_write 2 CSR_SIDELEG 1 ex_machine)))))"

text \<open>
  The example machine when the ownership register of slot 3 holds the identifier of core 1.
\<close>

definition ex_stale :: machine where
  "ex_stale = ex_machine\<lparr>mmio := (\<lambda>a. 0)(0xffffffc800004038 := 1)\<rparr>"

section \<open>Routing entries and the slots they name\<close>

text \<open>
  The handler slot a routing entry resolves to, when the loop of \<^verbatim>\<open>__taic_init\<close> gets as
  far as choosing one: the level (user when the cause is \<^verbatim>\<open>IRQ_U_SOFT\<close>, supervisor
  otherwise) and the cpu. An entry that does not parse, has another cause, or has no hart or
  no cpu resolves to no slot.
\<close>

definition entry_slot :: "u32 \<Rightarrow> u32 \<Rightarrow> of_irq_entry \<Rightarrow> (bool \<times> nat) option" where
  "entry_slot IRQ_U_SOFT IRQ_S_SOFT e =
     (if parse_ret e \<noteq> 0 \<or> (args0 e \<noteq> IRQ_U_SOFT \<and> args0 e \<noteq> IRQ_S_SOFT) \<or>
         hartid_ret e < 0 \<or> cpuid e < 0
      then None else Some (args0 e = IRQ_U_SOFT, nat (cpuid e)))"

text \<open>The slot of a level and a cpu in the two per-cpu tables.\<close>

definition handler_slot :: "machine \<Rightarrow> bool \<times> nat \<Rightarrow> taic_handler" where
  "handler_slot m sl = (if fst sl then taic_uhandlers m (snd sl) else taic_shandlers m (snd sl))"

section \<open>The ownership invariant as the specification words it\<close>

text \<open>
  The published owner of the slot bound to the task \<open>t\<close>, read from the window of the
  instance \<open>v\<close>, is the core \<open>r\<close> names when the context is resident in user mode there, and
  the all-ones value when it is resident nowhere.
\<close>

definition published_owner_ok :: "nat option \<Rightarrow> task_struct \<Rightarrow> machine \<Rightarrow> taic_priv \<Rightarrow> bool" where
  "published_owner_ok r t m v \<longleftrightarrow>
     mmio m (lq_owner_reg v (lq_idx (thread t))) =
       (case r of Some cpu \<Rightarrow> of_nat cpu | None \<Rightarrow> - 1)"

text \<open>The fields of an instance that registration writes once, before its loop.\<close>

definition priv_fixed :: "taic_priv \<Rightarrow> u64 \<times> u64 \<times> u64 \<times> u8 \<times> u8" where
  "priv_fixed v = (regs v, start v, size_r v, lq_num v, gq_num v)"

section \<open>Basic facts about the primitives\<close>

lemma priv_store_sel [simp]:
  "taic_shandlers (priv_store p f m) = taic_shandlers m"
  "taic_uhandlers (priv_store p f m) = taic_uhandlers m"
  "heap (priv_store p f m) = (heap m)(p := map_option f (heap m p))"
  "iomem (priv_store p f m) = iomem m"
  "mmio (priv_store p f m) = mmio m"
  "csr (priv_store p f m) = csr m"
  "events (priv_store p f m) = events m"
  "klog (priv_store p f m) = klog m"
  by (simp_all add: priv_store_def)

lemma kfree_sel [simp]:
  "taic_shandlers (kfree p m) = taic_shandlers m"
  "taic_uhandlers (kfree p m) = taic_uhandlers m"
  "heap (kfree p m) = (heap m)(p := None)"
  "iomem (kfree p m) = iomem m"
  "mmio (kfree p m) = mmio m"
  "csr (kfree p m) = csr m"
  "events (kfree p m) = events m"
  "klog (kfree p m) = klog m"
  by (simp_all add: kfree_def)

lemma iounmap_sel [simp]:
  "taic_shandlers (iounmap a m) = taic_shandlers m"
  "taic_uhandlers (iounmap a m) = taic_uhandlers m"
  "heap (iounmap a m) = heap m"
  "iomem (iounmap a m) = iomem m - {a}"
  "mmio (iounmap a m) = mmio m"
  "csr (iounmap a m) = csr m"
  "events (iounmap a m) = events m"
  "klog (iounmap a m) = klog m"
  by (simp_all add: iounmap_def)

lemma pr_log_sel [simp]:
  "taic_shandlers (pr_log msg m) = taic_shandlers m"
  "taic_uhandlers (pr_log msg m) = taic_uhandlers m"
  "heap (pr_log msg m) = heap m"
  "iomem (pr_log msg m) = iomem m"
  "mmio (pr_log msg m) = mmio m"
  "csr (pr_log msg m) = csr m"
  "events (pr_log msg m) = events m"
  "klog (pr_log msg m) = klog m @ [msg]"
  by (simp_all add: pr_log_def)

lemma writeq_sel [simp]:
  "taic_shandlers (writeq x a m) = taic_shandlers m"
  "taic_uhandlers (writeq x a m) = taic_uhandlers m"
  "heap (writeq x a m) = heap m"
  "iomem (writeq x a m) = iomem m"
  "mmio (writeq x a m) = (mmio m)(a := x)"
  "csr (writeq x a m) = csr m"
  "events (writeq x a m) = events m @ [Ev_writeq a x]"
  "klog (writeq x a m) = klog m"
  by (simp_all add: writeq_def)

lemma csr_write_sel [simp]:
  "taic_shandlers (csr_write cpu r x m) = taic_shandlers m"
  "taic_uhandlers (csr_write cpu r x m) = taic_uhandlers m"
  "heap (csr_write cpu r x m) = heap m"
  "iomem (csr_write cpu r x m) = iomem m"
  "mmio (csr_write cpu r x m) = mmio m"
  "csr (csr_write cpu r x m) = (csr m)(cpu := (csr m cpu)(r := x))"
  "events (csr_write cpu r x m) = events m @ [Ev_csr cpu r x]"
  "klog (csr_write cpu r x m) = klog m"
  by (simp_all add: csr_write_def)

lemma ex_machine_sel:
  "taic_uhandlers ex_machine 0 = \<lparr>present = True, priv = 1\<rparr>"
  "taic_uhandlers ex_machine 1 = \<lparr>present = True, priv = 1\<rparr>"
  "taic_uhandlers ex_machine (Suc 0) = \<lparr>present = True, priv = 1\<rparr>"
  "taic_uhandlers ex_machine 2 = \<lparr>present = False, priv = 0\<rparr>"
  "taic_shandlers ex_machine 0 = \<lparr>present = True, priv = 1\<rparr>"
  "heap ex_machine 1 = Some ex_priv"
  "heap ex_machine (Suc 0) = Some ex_priv"
  "mmio ex_machine a = 0"
  "csr ex_machine c r = 0"
  "events ex_machine = []"
  "klog ex_machine = []"
  by (simp_all add: ex_machine_def)

lemma ex_enabled_sel:
  "is_uintr_enabled ex_enabled" "lq_idx (thread ex_enabled) = 3"
  by (simp_all add: ex_enabled_def ex_task_def is_uintr_enabled_def uintr_enable_def)

section \<open>The register offset\<close>

lemma idx_high_bound: "unat (drop_bit 32 (lq :: u64)) < 2 ^ 32"
proof -
  have "unat (drop_bit 32 lq) = unat lq div 2 ^ 32"
    unfolding unat_drop_bit_eq by (simp add: drop_bit_eq_div)
  moreover have "unat lq < 2 ^ 64"
    using unsigned_less [of lq, where ?'a = nat] by simp
  ultimately show ?thesis
    by (simp add: less_mult_imp_div_less)
qed

lemma idx_low_bound: "unat ((lq :: u64) AND 0xffffffff) < 2 ^ 32"
proof -
  have "lq AND 0xffffffff \<le> 0xffffffff"
    by (rule word_and_le1)
  then have "unat (lq AND 0xffffffff) \<le> unat (0xffffffff :: u64)"
    by (simp only: word_le_nat_alt)
  then show ?thesis
    by simp
qed

lemma lq_owner_offset_no_wrap:
  fixes lq :: u64 and n :: u8
  shows "lq_owner_offset (unat n) (unat (drop_bit 32 lq)) (unat (lq AND 0xffffffff)) < 2 ^ 64"
proof -
  have n: "unat n \<le> 255"
    using unsigned_less [of n, where ?'a = nat] by simp
  have hi: "unat (drop_bit 32 lq) \<le> 4294967295"
    using idx_high_bound [of lq] by simp
  have lo: "unat (lq AND 0xffffffff) \<le> 4294967295"
    using idx_low_bound [of lq] by simp
  have "unat (drop_bit 32 lq) * unat n \<le> 4294967295 * 255"
    using hi n by (rule mult_le_mono)
  with lo show ?thesis
    by (simp add: lq_owner_offset_def)
qed

lemma lq_owner_reg_code:
  "regs v + LQ_OFFSET + (drop_bit 32 lq * ucast (lq_num v) + (lq AND 0xffffffff)) * LQ_SIZE + 0x38
     = lq_owner_reg v lq"
  by (simp add: lq_owner_reg_def lq_owner_offset_def LQ_OFFSET_def LQ_SIZE_def)

lemma taic_ulq_write_cpuid_present:
  assumes "present (taic_uhandlers m cpu)"
    and "heap m (priv (taic_uhandlers m cpu)) = Some v"
  shows "taic_ulq_write_cpuid cpu lq h m = Some (0, writeq h (lq_owner_reg v lq) m)"
  using assms by (simp add: taic_ulq_write_cpuid_def Let_def lq_owner_reg_code)

lemma ex_slot3_reg: "lq_owner_reg ex_priv 3 = 0xffffffc800004038"
  by (simp add: lq_owner_reg_def lq_owner_offset_def ex_priv_def drop_bit_eq_div)

text \<open>
  C2. When the publish operation runs on a core whose user-level slot is present, the
  register it writes lies at the byte offset
  \<open>0x1000 + (idx_high * lq_num + idx_low) * 0x1000 + 0x38\<close> from the base of the register
  window, where \<open>idx_high\<close> and \<open>idx_low\<close> are the halves of the slot index above and below
  bit 32. The offset is the one over the natural numbers: the 64-bit arithmetic of the code
  never wraps, for any slot index and any 8-bit capacity.
\<close>

theorem taic_ulq_write_cpuid_offset:
  assumes "present (taic_uhandlers m cpu)"
    and "heap m (priv (taic_uhandlers m cpu)) = Some v"
  shows "taic_ulq_write_cpuid cpu lq h m =
           Some (0, writeq h (regs v + of_nat (lq_owner_offset (unat (lq_num v))
                   (unat (drop_bit 32 lq)) (unat (lq AND 0xffffffff)))) m) \<and>
         lq_owner_offset (unat (lq_num v)) (unat (drop_bit 32 lq)) (unat (lq AND 0xffffffff))
           < 2 ^ 64"
  using assms lq_owner_offset_no_wrap [of "lq_num v" lq]
  by (simp add: taic_ulq_write_cpuid_def Let_def lq_owner_reg_code lq_owner_reg_def)

theorem taic_ulq_write_cpuid_offset_witness:
  "present (taic_uhandlers ex_machine 0) \<and>
   heap ex_machine (priv (taic_uhandlers ex_machine 0)) = Some ex_priv \<and>
   taic_ulq_write_cpuid 0 0x100000002 5 ex_machine =
     Some (0, writeq 5 (0xffffffc800000000 + 0xb038) ex_machine)"
  using taic_ulq_write_cpuid_offset [of ex_machine 0 ex_priv "0x100000002" 5]
  by (simp add: ex_machine_sel ex_priv_def lq_owner_offset_def drop_bit_eq_div)

section \<open>Properties of the enablement call\<close>

text \<open>
  C4. The enablement call always returns 0, and calling it a second time with the same
  queue index leaves the task exactly as the first call left it.
\<close>

theorem uintr_enable_idempotent:
  "fst (uintr_enable q t) = 0 \<and>
   uintr_enable q (snd (uintr_enable q t)) = (0, snd (uintr_enable q t))"
  by (simp add: uintr_enable_def is_uintr_enabled_def)

theorem uintr_enable_idempotent_witness:
  "fst (uintr_enable 3 ex_task) = 0 \<and> uintr_enable 3 ex_enabled = (0, ex_enabled)"
  using uintr_enable_idempotent [of 3 ex_task]
  by (simp add: ex_enabled_def)

text \<open>
  C9. Once the context is enabled, a further enablement call returns 0 and changes no field
  of the task, whatever queue index it is given. In particular, after a first call with
  index \<open>q\<close> on a context that was not enabled, a second call with another index \<open>q'\<close>
  leaves the stored index at \<open>q\<close>.
\<close>

theorem uintr_enable_index_kept:
  "(is_uintr_enabled t \<longrightarrow> uintr_enable q' t = (0, t)) \<and>
   (\<not> is_uintr_enabled t \<longrightarrow>
      lq_idx (thread (snd (uintr_enable q t))) = q \<and>
      uintr_enable q' (snd (uintr_enable q t)) = (0, snd (uintr_enable q t)))"
  by (simp add: uintr_enable_def is_uintr_enabled_def)

theorem uintr_enable_index_kept_witness:
  "\<not> is_uintr_enabled ex_task \<and>
   is_uintr_enabled (snd (uintr_enable 3 ex_task)) \<and>
   lq_idx (thread (snd (uintr_enable 3 ex_task))) = 3 \<and>
   uintr_enable 5 (snd (uintr_enable 3 ex_task)) = (0, snd (uintr_enable 3 ex_task)) \<and>
   lq_idx (thread (snd (uintr_enable 5 (snd (uintr_enable 3 ex_task))))) = 3"
  using uintr_enable_index_kept [of ex_task 5 3]
    uintr_enable_index_kept [of "snd (uintr_enable 3 ex_task)" 5 3]
  by (simp add: ex_task_def is_uintr_enabled_def uintr_enable_def)

section \<open>Properties of the ownership protocol\<close>

text \<open>
  C6. On a core whose user-level slot, when present, points to an allocated instance, the
  publish and the release operation return a negative status exactly when the slot is not
  present. In that case the state is unchanged, so no register is written; otherwise the
  status is 0 and the operation performs one register store and nothing else.
\<close>

theorem taic_binding_error:
  assumes "present (taic_uhandlers m cpu) \<longrightarrow> heap m (priv (taic_uhandlers m cpu)) \<noteq> None"
  shows "(\<exists>r m'. taic_ulq_write_cpuid cpu lq h m = Some (r, m') \<and>
            (r < 0 \<longleftrightarrow> \<not> present (taic_uhandlers m cpu)) \<and>
            (r < 0 \<longrightarrow> m' = m) \<and>
            (\<not> r < 0 \<longrightarrow> r = 0 \<and>
               (\<exists>a. m' = writeq h a m \<and> events m' = events m @ [Ev_writeq a h]))) \<and>
         (\<exists>r m'. taic_free_lq cpu lq m = Some (r, m') \<and>
            (r < 0 \<longleftrightarrow> \<not> present (taic_uhandlers m cpu)) \<and>
            (r < 0 \<longrightarrow> m' = m) \<and>
            (\<not> r < 0 \<longrightarrow> r = 0 \<and>
               (\<exists>a. m' = writeq lq a m \<and> events m' = events m @ [Ev_writeq a lq])))"
  using assms
  by (cases "present (taic_uhandlers m cpu)")
     (auto simp: taic_ulq_write_cpuid_def taic_free_lq_def Let_def EINVAL_def)

theorem taic_binding_error_witness:
  "present (taic_uhandlers ex_machine 0) \<and>
   heap ex_machine (priv (taic_uhandlers ex_machine 0)) \<noteq> None \<and>
   \<not> present (taic_uhandlers ex_machine 2) \<and>
   (\<exists>m'. taic_ulq_write_cpuid 0 3 7 ex_machine = Some (0, m') \<and>
      (\<exists>a. events m' = [Ev_writeq a 7])) \<and>
   (\<exists>m'. taic_free_lq 0 3 ex_machine = Some (0, m') \<and>
      (\<exists>a. events m' = [Ev_writeq a 3])) \<and>
   (\<exists>r. r < 0 \<and> taic_ulq_write_cpuid 2 3 7 ex_machine = Some (r, ex_machine)) \<and>
   (\<exists>r. r < 0 \<and> taic_free_lq 2 3 ex_machine = Some (r, ex_machine))"
  using taic_binding_error [of ex_machine 0 3 7] taic_binding_error [of ex_machine 2 3 7]
  by (auto simp add: ex_machine_sel)

section \<open>Properties of the trap-exit hook\<close>

text \<open>
  C3. When the trap-exit hook runs for a context that has not enabled user interrupts, the
  user-interrupt-enable bit and the user-interrupt-pending bit of the executing hart are
  clear afterwards, whatever they were before, device memory is unchanged, and the only
  hardware accesses are the three CSR updates: no register of the controller is written.
\<close>

theorem uintr_set_disabled:
  assumes "\<not> is_uintr_enabled t"
  shows "\<exists>m'. uintr_set IE cpu rg t m = Some m' \<and>
           csr m' cpu CSR_UIE AND IE = 0 \<and> csr m' cpu CSR_UIP AND IE = 0 \<and>
           mmio m' = mmio m \<and>
           events m' = events m @
             [Ev_csr cpu CSR_SIDELEG (csr m cpu CSR_SIDELEG OR IE),
              Ev_csr cpu CSR_UIE (csr m cpu CSR_UIE AND NOT IE),
              Ev_csr cpu CSR_UIP (csr m cpu CSR_UIP AND NOT IE)]"
  using assms
  by (simp add: uintr_set_def csr_set_def csr_clear_def csr_read_def Let_def and.assoc)

theorem uintr_set_disabled_witness:
  "\<not> is_uintr_enabled ex_task \<and>
   csr ex_pending 2 CSR_UIE AND 1 = 1 \<and> csr ex_pending 2 CSR_UIP AND 1 = 1 \<and>
   (\<exists>m'. uintr_set 1 2 ex_regs ex_task ex_pending = Some m' \<and>
      csr m' 2 CSR_UIE AND 1 = 0 \<and> csr m' 2 CSR_UIP AND 1 = 0 \<and> mmio m' = mmio ex_pending)"
  using uintr_set_disabled [of ex_task 1 2 ex_regs ex_pending]
  by (auto simp add: ex_task_def is_uintr_enabled_def ex_pending_def ex_machine_def)

lemma uintr_set_sideleg_first:
  assumes "uintr_set IE cpu rg t m = Some m'"
  shows "\<exists>rest. events m' =
           events m @ Ev_csr cpu CSR_SIDELEG (csr m cpu CSR_SIDELEG OR IE) # rest"
proof (cases "is_uintr_enabled t")
  case False
  with assms show ?thesis
    by (auto simp add: uintr_set_def csr_set_def csr_clear_def csr_read_def Let_def)
next
  case True
  with assms show ?thesis
    by (auto simp add: uintr_set_def csr_set_def csr_read_def Let_def taic_ulq_write_cpuid_def
        split: option.splits if_splits)
qed

lemma uintr_set_unbound:
  assumes "is_uintr_enabled t" and "\<not> present (taic_uhandlers m cpu)"
  shows "uintr_set IE cpu rg t m =
     Some (csr_write cpu CSR_UIP (uip rg OR csr m cpu CSR_UIP)
       (csr_write cpu CSR_USCRATCH (uscratch rg) (csr_write cpu CSR_UTVEC (utvec rg)
         (csr_write cpu CSR_UEPC (uepc rg) (csr_write cpu CSR_UIE (uie rg)
           (csr_write cpu CSR_SIDELEG (csr m cpu CSR_SIDELEG OR IE) m))))))"
  using assms
  by (simp add: uintr_set_def csr_set_def csr_read_def Let_def taic_ulq_write_cpuid_def)

lemma ex_exit2_run: "uintr_set 1 2 ex_regs ex_enabled ex_machine = Some ex_exit2"
  using uintr_set_unbound [of ex_enabled ex_machine 2 1 ex_regs]
  by (simp add: ex_enabled_sel ex_machine_sel ex_exit2_def ex_regs_def)

lemma ex_exit2_sel:
  "mmio ex_exit2 a = 0"
  "csr ex_exit2 2 CSR_UIE = 1"
  "events ex_exit2 =
     [Ev_csr 2 CSR_SIDELEG 1, Ev_csr 2 CSR_UIE 1, Ev_csr 2 CSR_UEPC 0x10400,
      Ev_csr 2 CSR_UTVEC 0x10000, Ev_csr 2 CSR_USCRATCH 0x7ff0, Ev_csr 2 CSR_UIP 0]"
  by (simp_all add: ex_exit2_def ex_machine_sel)

text \<open>
  C7, as amended. When the trap-exit hook runs for an enabled context on a core whose
  user-level slot is present, its hardware accesses are, in this order: the delegation bit
  is set in \<open>sideleg\<close>; the core's identifier is stored to the ownership register of the
  bound slot; the saved enable mask, trap program counter, trap vector and scratch value are
  written to their CSRs; and the pending CSR is written with the saved pending value ORed
  with what the pending CSR held. On a core whose user-level slot is not present the hook
  makes the same CSR accesses in the same order and stores to no register of the controller:
  device memory is as it was. Setting the delegation bit is the first hardware access of
  every run of the hook that returns, enabled or not.
\<close>

theorem uintr_set_enabled:
  "(is_uintr_enabled t \<and> present (taic_uhandlers m cpu) \<and>
      heap m (priv (taic_uhandlers m cpu)) = Some v \<longrightarrow>
    (\<exists>m'. uintr_set IE cpu rg t m = Some m' \<and>
     events m' = events m @
       [Ev_csr cpu CSR_SIDELEG (csr m cpu CSR_SIDELEG OR IE),
        Ev_writeq (lq_owner_reg v (lq_idx (thread t))) (of_nat cpu),
        Ev_csr cpu CSR_UIE (uie rg),
        Ev_csr cpu CSR_UEPC (uepc rg),
        Ev_csr cpu CSR_UTVEC (utvec rg),
        Ev_csr cpu CSR_USCRATCH (uscratch rg),
        Ev_csr cpu CSR_UIP (uip rg OR csr m cpu CSR_UIP)] \<and>
     csr m' cpu CSR_SIDELEG = (csr m cpu CSR_SIDELEG OR IE) \<and>
     csr m' cpu CSR_UIE = uie rg \<and>
     csr m' cpu CSR_UEPC = uepc rg \<and>
     csr m' cpu CSR_UTVEC = utvec rg \<and>
     csr m' cpu CSR_USCRATCH = uscratch rg \<and>
     csr m' cpu CSR_UIP = (uip rg OR csr m cpu CSR_UIP) \<and>
     mmio m' = (mmio m)(lq_owner_reg v (lq_idx (thread t)) := of_nat cpu))) \<and>
   (is_uintr_enabled t \<and> \<not> present (taic_uhandlers m cpu) \<longrightarrow>
    (\<exists>m'. uintr_set IE cpu rg t m = Some m' \<and>
     events m' = events m @
       [Ev_csr cpu CSR_SIDELEG (csr m cpu CSR_SIDELEG OR IE),
        Ev_csr cpu CSR_UIE (uie rg),
        Ev_csr cpu CSR_UEPC (uepc rg),
        Ev_csr cpu CSR_UTVEC (utvec rg),
        Ev_csr cpu CSR_USCRATCH (uscratch rg),
        Ev_csr cpu CSR_UIP (uip rg OR csr m cpu CSR_UIP)] \<and>
     csr m' cpu CSR_SIDELEG = (csr m cpu CSR_SIDELEG OR IE) \<and>
     csr m' cpu CSR_UIE = uie rg \<and>
     csr m' cpu CSR_UEPC = uepc rg \<and>
     csr m' cpu CSR_UTVEC = utvec rg \<and>
     csr m' cpu CSR_USCRATCH = uscratch rg \<and>
     csr m' cpu CSR_UIP = (uip rg OR csr m cpu CSR_UIP) \<and>
     mmio m' = mmio m)) \<and>
   (uintr_set IE cpu rg t m = Some n \<longrightarrow>
     (\<exists>rest. events n =
        events m @ Ev_csr cpu CSR_SIDELEG (csr m cpu CSR_SIDELEG OR IE) # rest))"
proof (intro conjI impI)
  assume "is_uintr_enabled t \<and> present (taic_uhandlers m cpu) \<and>
      heap m (priv (taic_uhandlers m cpu)) = Some v"
  then show "\<exists>m'. uintr_set IE cpu rg t m = Some m' \<and>
     events m' = events m @
       [Ev_csr cpu CSR_SIDELEG (csr m cpu CSR_SIDELEG OR IE),
        Ev_writeq (lq_owner_reg v (lq_idx (thread t))) (of_nat cpu),
        Ev_csr cpu CSR_UIE (uie rg),
        Ev_csr cpu CSR_UEPC (uepc rg),
        Ev_csr cpu CSR_UTVEC (utvec rg),
        Ev_csr cpu CSR_USCRATCH (uscratch rg),
        Ev_csr cpu CSR_UIP (uip rg OR csr m cpu CSR_UIP)] \<and>
     csr m' cpu CSR_SIDELEG = (csr m cpu CSR_SIDELEG OR IE) \<and>
     csr m' cpu CSR_UIE = uie rg \<and>
     csr m' cpu CSR_UEPC = uepc rg \<and>
     csr m' cpu CSR_UTVEC = utvec rg \<and>
     csr m' cpu CSR_USCRATCH = uscratch rg \<and>
     csr m' cpu CSR_UIP = (uip rg OR csr m cpu CSR_UIP) \<and>
     mmio m' = (mmio m)(lq_owner_reg v (lq_idx (thread t)) := of_nat cpu)"
    by (simp add: uintr_set_def csr_set_def csr_read_def Let_def
        taic_ulq_write_cpuid_present [where v = v])
next
  assume "is_uintr_enabled t \<and> \<not> present (taic_uhandlers m cpu)"
  then show "\<exists>m'. uintr_set IE cpu rg t m = Some m' \<and>
     events m' = events m @
       [Ev_csr cpu CSR_SIDELEG (csr m cpu CSR_SIDELEG OR IE),
        Ev_csr cpu CSR_UIE (uie rg),
        Ev_csr cpu CSR_UEPC (uepc rg),
        Ev_csr cpu CSR_UTVEC (utvec rg),
        Ev_csr cpu CSR_USCRATCH (uscratch rg),
        Ev_csr cpu CSR_UIP (uip rg OR csr m cpu CSR_UIP)] \<and>
     csr m' cpu CSR_SIDELEG = (csr m cpu CSR_SIDELEG OR IE) \<and>
     csr m' cpu CSR_UIE = uie rg \<and>
     csr m' cpu CSR_UEPC = uepc rg \<and>
     csr m' cpu CSR_UTVEC = utvec rg \<and>
     csr m' cpu CSR_USCRATCH = uscratch rg \<and>
     csr m' cpu CSR_UIP = (uip rg OR csr m cpu CSR_UIP) \<and>
     mmio m' = mmio m"
    by (simp add: uintr_set_unbound)
next
  assume "uintr_set IE cpu rg t m = Some n"
  then show "\<exists>rest. events n =
        events m @ Ev_csr cpu CSR_SIDELEG (csr m cpu CSR_SIDELEG OR IE) # rest"
    by (rule uintr_set_sideleg_first)
qed

theorem uintr_set_enabled_witness:
  "is_uintr_enabled ex_enabled \<and>
   present (taic_uhandlers ex_pending 1) \<and>
   heap ex_pending (priv (taic_uhandlers ex_pending 1)) = Some ex_priv \<and>
   (\<exists>m'. uintr_set 1 1 ex_regs ex_enabled ex_pending = Some m' \<and>
     events m' =
       [Ev_csr 1 CSR_SIDELEG 3,
        Ev_writeq 0xffffffc800004038 1,
        Ev_csr 1 CSR_UIE 1,
        Ev_csr 1 CSR_UEPC 0x10400,
        Ev_csr 1 CSR_UTVEC 0x10000,
        Ev_csr 1 CSR_USCRATCH 0x7ff0,
        Ev_csr 1 CSR_UIP 3] \<and>
     mmio m' 0xffffffc800004038 = 1) \<and>
   \<not> present (taic_uhandlers ex_pending 2) \<and>
   (\<exists>m'. uintr_set 1 2 ex_regs ex_enabled ex_pending = Some m' \<and>
     events m' =
       [Ev_csr 2 CSR_SIDELEG 3,
        Ev_csr 2 CSR_UIE 1,
        Ev_csr 2 CSR_UEPC 0x10400,
        Ev_csr 2 CSR_UTVEC 0x10000,
        Ev_csr 2 CSR_USCRATCH 0x7ff0,
        Ev_csr 2 CSR_UIP 3] \<and>
     mmio m' = mmio ex_pending)"
proof -
  have p: "present (taic_uhandlers ex_pending 1)"
    "heap ex_pending (priv (taic_uhandlers ex_pending 1)) = Some ex_priv"
    "present (taic_uhandlers ex_pending (Suc 0))"
    "heap ex_pending (priv (taic_uhandlers ex_pending (Suc 0))) = Some ex_priv"
    "\<not> present (taic_uhandlers ex_pending 2)"
    "events ex_pending = []" "csr ex_pending c r = 3" "mmio ex_pending a = 0" for c r a
    by (simp_all add: ex_pending_def ex_machine_sel)
  have r: "uie ex_regs = 1" "uepc ex_regs = 0x10400" "utvec ex_regs = 0x10000"
    "uscratch ex_regs = 0x7ff0" "uip ex_regs = 0"
    by (simp_all add: ex_regs_def)
  note a = uintr_set_enabled [of ex_enabled ex_pending 1 ex_priv 1 ex_regs, THEN conjunct1]
  note b = uintr_set_enabled [of ex_enabled ex_pending 2 ex_priv 1 ex_regs,
      THEN conjunct2, THEN conjunct1]
  show ?thesis
    using a b by (auto simp add: ex_enabled_sel p r ex_slot3_reg)
qed

text \<open>
  For an enabled context on core 2 of the example machine, which has no user-level slot, the
  hook restores the enable mask and the other CSRs and writes no register of the controller:
  the ownership register of slot 3 still holds 0 and not the identifier of core 2.
\<close>

theorem uintr_set_unbound_counterexample:
  "is_uintr_enabled ex_enabled \<and> \<not> present (taic_uhandlers ex_machine 2) \<and>
   uintr_set 1 2 ex_regs ex_enabled ex_machine = Some ex_exit2 \<and>
   events ex_machine = [] \<and>
   events ex_exit2 =
     [Ev_csr 2 CSR_SIDELEG 1, Ev_csr 2 CSR_UIE 1, Ev_csr 2 CSR_UEPC 0x10400,
      Ev_csr 2 CSR_UTVEC 0x10000, Ev_csr 2 CSR_USCRATCH 0x7ff0, Ev_csr 2 CSR_UIP 0] \<and>
   csr ex_exit2 2 CSR_UIE = uie ex_regs \<and>
   mmio ex_exit2 (lq_owner_reg ex_priv (lq_idx (thread ex_enabled))) = 0 \<and>
   mmio ex_exit2 (lq_owner_reg ex_priv (lq_idx (thread ex_enabled))) \<noteq> of_nat 2"
  using ex_exit2_run
  by (simp add: ex_enabled_sel ex_machine_sel ex_exit2_sel ex_regs_def)

section \<open>Properties of the trap-entry hook\<close>

lemma uintr_clear_enabled:
  assumes "is_uintr_enabled t"
    and "present (taic_uhandlers m cpu)"
    and "heap m (priv (taic_uhandlers m cpu)) = Some v"
  shows "uintr_clear cpu rg t m = Some (writeq (- 1) (lq_owner_reg v (lq_idx (thread t))) m)"
  using assms by (simp add: uintr_clear_def taic_ulq_write_cpuid_present [where v = v])

lemma uintr_set_enabled_mmio:
  assumes "is_uintr_enabled t"
    and "present (taic_uhandlers m cpu)"
    and "heap m (priv (taic_uhandlers m cpu)) = Some v"
  shows "\<exists>m'. uintr_set IE cpu rg t m = Some m' \<and>
           mmio m' = (mmio m)(lq_owner_reg v (lq_idx (thread t)) := of_nat cpu)"
  using assms
  by (simp add: uintr_set_def csr_set_def csr_read_def Let_def
      taic_ulq_write_cpuid_present [where v = v])

lemma uintr_clear_unbound:
  assumes "is_uintr_enabled t" and "\<not> present (taic_uhandlers m cpu)"
  shows "uintr_clear cpu rg t m = Some m"
  using assms by (simp add: uintr_clear_def taic_ulq_write_cpuid_def)

text \<open>
  C10, as amended. The trap-entry hook, run for an enabled context on a core whose
  user-level slot is present, stores the all-ones value to the ownership register of the
  bound slot. It does so whether or not a trap exit has run since the enablement call. A
  second run repeats the same store and changes nothing else: the register still holds all
  ones, and the task is the same after each run. On a core whose user-level slot is not
  present the hook changes nothing at all, so the register keeps the value it had.
\<close>

theorem uintr_clear_idempotent:
  "(is_uintr_enabled t \<and> present (taic_uhandlers m cpu) \<and>
      heap m (priv (taic_uhandlers m cpu)) = Some v \<longrightarrow>
     (\<exists>m1. uintr_clear cpu rg t m = Some m1 \<and>
           do_step IE (Trap_entry cpu rg) (t, m) = Some (t, m1) \<and>
           events m1 = events m @ [Ev_writeq (lq_owner_reg v (lq_idx (thread t))) (- 1)] \<and>
           mmio m1 (lq_owner_reg v (lq_idx (thread t))) = - 1 \<and>
           uintr_clear cpu rg' t m1 =
             Some (m1\<lparr>events := events m1 @
                      [Ev_writeq (lq_owner_reg v (lq_idx (thread t))) (- 1)]\<rparr>) \<and>
           do_step IE (Trap_entry cpu rg') (t, m1) =
             Some (t, m1\<lparr>events := events m1 @
                      [Ev_writeq (lq_owner_reg v (lq_idx (thread t))) (- 1)]\<rparr>))) \<and>
   (is_uintr_enabled t \<and> \<not> present (taic_uhandlers m cpu) \<longrightarrow>
      uintr_clear cpu rg t m = Some m \<and>
      do_step IE (Trap_entry cpu rg) (t, m) = Some (t, m))"
proof (intro conjI impI)
  assume a: "is_uintr_enabled t \<and> present (taic_uhandlers m cpu) \<and>
      heap m (priv (taic_uhandlers m cpu)) = Some v"
  let ?a = "lq_owner_reg v (lq_idx (thread t))"
  let ?m1 = "writeq (- 1) ?a m"
  have c1: "uintr_clear cpu rg t m = Some ?m1"
    using a by (simp add: uintr_clear_enabled)
  have "present (taic_uhandlers ?m1 cpu)" "heap ?m1 (priv (taic_uhandlers ?m1 cpu)) = Some v"
    using a by simp_all
  with a have c2: "uintr_clear cpu rg' t ?m1 = Some (writeq (- 1) ?a ?m1)"
    by (simp add: uintr_clear_enabled)
  have w: "writeq (- 1) ?a ?m1 = ?m1\<lparr>events := events ?m1 @ [Ev_writeq ?a (- 1)]\<rparr>"
    by (simp add: writeq_def)
  show "\<exists>m1. uintr_clear cpu rg t m = Some m1 \<and>
           do_step IE (Trap_entry cpu rg) (t, m) = Some (t, m1) \<and>
           events m1 = events m @ [Ev_writeq ?a (- 1)] \<and>
           mmio m1 ?a = - 1 \<and>
           uintr_clear cpu rg' t m1 =
             Some (m1\<lparr>events := events m1 @ [Ev_writeq ?a (- 1)]\<rparr>) \<and>
           do_step IE (Trap_entry cpu rg') (t, m1) =
             Some (t, m1\<lparr>events := events m1 @ [Ev_writeq ?a (- 1)]\<rparr>)"
    using c1 c2 w by simp
next
  assume "is_uintr_enabled t \<and> \<not> present (taic_uhandlers m cpu)"
  then show "uintr_clear cpu rg t m = Some m" "do_step IE (Trap_entry cpu rg) (t, m) = Some (t, m)"
    by (simp_all add: uintr_clear_unbound)
qed

theorem uintr_clear_idempotent_witness:
  "is_uintr_enabled ex_enabled \<and> present (taic_uhandlers ex_machine 0) \<and>
   heap ex_machine (priv (taic_uhandlers ex_machine 0)) = Some ex_priv \<and>
   events ex_machine = [] \<and>
   (\<exists>m1. uintr_clear 0 ex_regs ex_enabled ex_machine = Some m1 \<and>
      events m1 = [Ev_writeq 0xffffffc800004038 (- 1)] \<and>
      mmio m1 0xffffffc800004038 = - 1 \<and>
      uintr_clear 0 ex_regs ex_enabled m1 =
        Some (m1\<lparr>events := [Ev_writeq 0xffffffc800004038 (- 1),
                              Ev_writeq 0xffffffc800004038 (- 1)]\<rparr>)) \<and>
   \<not> present (taic_uhandlers ex_machine 2) \<and>
   uintr_clear 2 ex_regs ex_enabled ex_machine = Some ex_machine"
  using uintr_clear_idempotent [of ex_enabled ex_machine 0 ex_priv ex_regs 1 ex_regs,
      THEN conjunct1]
    uintr_clear_idempotent [of ex_enabled ex_machine 2 ex_priv ex_regs 1 ex_regs,
      THEN conjunct2]
  by (auto simp add: ex_enabled_sel ex_machine_sel ex_slot3_reg)

text \<open>
  For an enabled context on core 2 of the example machine, which has no user-level slot,
  with the ownership register of slot 3 holding the identifier of core 1, the hook returns
  the machine unchanged: the register holds 1 afterwards, not all ones.
\<close>

theorem uintr_clear_unbound_counterexample:
  "is_uintr_enabled ex_enabled \<and> \<not> present (taic_uhandlers ex_stale 2) \<and>
   heap ex_stale 1 = Some ex_priv \<and>
   mmio ex_stale (lq_owner_reg ex_priv (lq_idx (thread ex_enabled))) = 1 \<and>
   uintr_clear 2 ex_regs ex_enabled ex_stale = Some ex_stale \<and>
   mmio ex_stale (lq_owner_reg ex_priv (lq_idx (thread ex_enabled))) \<noteq> - 1"
  using uintr_clear_unbound [of ex_enabled ex_stale 2 ex_regs]
  by (simp add: ex_enabled_sel ex_stale_def ex_machine_def ex_slot3_reg)

section \<open>Properties of registration\<close>

lemma taic_init_context_frame:
  "iomem (snd (taic_init_context U S p i e em)) = iomem (snd em)"
  "mmio (snd (taic_init_context U S p i e em)) = mmio (snd em)"
  "csr (snd (taic_init_context U S p i e em)) = csr (snd em)"
  "events (snd (taic_init_context U S p i e em)) = events (snd em)"
  by (simp_all add: taic_init_context_def Let_def)

lemma taic_init_context_fixed:
  "map_option priv_fixed (heap (snd (taic_init_context U S p i e em)) q) =
   map_option priv_fixed (heap (snd em) q)"
  by (cases "heap (snd em) p") (simp_all add: taic_init_context_def Let_def priv_fixed_def)

lemma taic_init_context_uslot:
  "present (taic_uhandlers (snd em) c) \<Longrightarrow>
   taic_uhandlers (snd (taic_init_context U S p i e em)) c = taic_uhandlers (snd em) c"
  by (auto simp add: taic_init_context_def Let_def)

lemma taic_init_context_sslot:
  "present (taic_shandlers (snd em) c) \<Longrightarrow>
   taic_shandlers (snd (taic_init_context U S p i e em)) c = taic_shandlers (snd em) c"
  by (auto simp add: taic_init_context_def Let_def)

lemma taic_init_context_skipped:
  "entry_skipped U S (snd em) e \<Longrightarrow>
   taic_uhandlers (snd (taic_init_context U S p i e em)) = taic_uhandlers (snd em) \<and>
   taic_shandlers (snd (taic_init_context U S p i e em)) = taic_shandlers (snd em)"
  by (auto simp add: taic_init_context_def Let_def entry_skipped_def)

lemma taic_init_loop_frame:
  "iomem (snd (taic_init_loop U S p i es em)) = iomem (snd em)"
  "mmio (snd (taic_init_loop U S p i es em)) = mmio (snd em)"
  "csr (snd (taic_init_loop U S p i es em)) = csr (snd em)"
  "events (snd (taic_init_loop U S p i es em)) = events (snd em)"
  by (induction es arbitrary: i em; simp add: taic_init_context_frame)+

lemma taic_init_loop_fixed:
  "map_option priv_fixed (heap (snd (taic_init_loop U S p i es em)) q) =
   map_option priv_fixed (heap (snd em) q)"
  by (induction es arbitrary: i em) (simp_all add: taic_init_context_fixed)

lemma taic_init_loop_uslot:
  "present (taic_uhandlers (snd em) c) \<Longrightarrow>
   taic_uhandlers (snd (taic_init_loop U S p i es em)) c = taic_uhandlers (snd em) c"
  by (induction es arbitrary: i em) (simp_all add: taic_init_context_uslot)

lemma taic_init_loop_sslot:
  "present (taic_shandlers (snd em) c) \<Longrightarrow>
   taic_shandlers (snd (taic_init_loop U S p i es em)) c = taic_shandlers (snd em) c"
  by (induction es arbitrary: i em) (simp_all add: taic_init_context_sslot)

lemma taic_init_loop_skipped:
  "list_all (entry_skipped U S (snd em)) es \<Longrightarrow>
   taic_uhandlers (snd (taic_init_loop U S p i es em)) = taic_uhandlers (snd em) \<and>
   taic_shandlers (snd (taic_init_loop U S p i es em)) = taic_shandlers (snd em)"
proof (induction es arbitrary: i em)
  case Nil
  then show ?case by simp
next
  case (Cons e es)
  let ?em = "taic_init_context U S p i e em"
  from Cons.prems have e: "entry_skipped U S (snd em) e"
    and es: "list_all (entry_skipped U S (snd em)) es" by simp_all
  note k = taic_init_context_skipped [OF e, of p i]
  have "entry_skipped U S (snd ?em) = entry_skipped U S (snd em)"
    using k by (simp add: fun_eq_iff entry_skipped_def)
  with es have "list_all (entry_skipped U S (snd ?em)) es" by simp
  from Cons.IH [OF this, of "Suc i"] k show ?case by simp
qed

lemma taic_init_context_klog:
  "set (klog (snd em)) \<subseteq> set (klog (snd (taic_init_context U S p i e em)))"
  by (auto simp add: taic_init_context_def Let_def)

lemma taic_init_loop_klog:
  "set (klog (snd em)) \<subseteq> set (klog (snd (taic_init_loop U S p i es em)))"
proof (induction es arbitrary: i em)
  case Nil
  then show ?case by simp
next
  case (Cons e es)
  have "set (klog (snd em)) \<subseteq> set (klog (snd (taic_init_context U S p i e em)))"
    by (rule taic_init_context_klog)
  also have "\<dots> \<subseteq> set (klog (snd (taic_init_loop U S p (Suc i) es
      (taic_init_context U S p i e em))))"
    by (rule Cons.IH)
  finally show ?case by simp
qed

lemma taic_init_context_slot:
  "present (handler_slot (snd em) sl) \<Longrightarrow>
   handler_slot (snd (taic_init_context U S p i e em)) sl = handler_slot (snd em) sl"
  by (cases "fst sl") (simp_all add: handler_slot_def taic_init_context_uslot taic_init_context_sslot)

lemma taic_init_loop_slot:
  "present (handler_slot (snd em) sl) \<Longrightarrow>
   handler_slot (snd (taic_init_loop U S p i es em)) sl = handler_slot (snd em) sl"
  by (cases "fst sl") (simp_all add: handler_slot_def taic_init_loop_uslot taic_init_loop_sslot)

lemma taic_init_context_slot_cases:
  "handler_slot (snd (taic_init_context U S p i e em)) sl = handler_slot (snd em) sl \<or>
   handler_slot (snd (taic_init_context U S p i e em)) sl = \<lparr>present = True, priv = p\<rparr>"
  by (auto simp add: taic_init_context_def Let_def handler_slot_def)

lemma taic_init_context_resolved:
  assumes "entry_slot U S e = Some sl"
  shows "(present (handler_slot (snd em) sl) \<longrightarrow>
            Warn_handler_present i \<in> set (klog (snd (taic_init_context U S p i e em)))) \<and>
         (\<not> present (handler_slot (snd em) sl) \<longrightarrow>
            handler_slot (snd (taic_init_context U S p i e em)) sl =
              \<lparr>present = True, priv = p\<rparr>)"
  using assms
  by (auto simp add: entry_slot_def taic_init_context_def Let_def handler_slot_def
      split: if_splits)

lemma taic_init_loop_resolved:
  assumes "k < length es" and "entry_slot U S (es ! k) = Some sl"
  shows "(present (handler_slot (snd em) sl) \<longrightarrow>
            handler_slot (snd (taic_init_loop U S p i es em)) sl = handler_slot (snd em) sl \<and>
            Warn_handler_present (i + k) \<in> set (klog (snd (taic_init_loop U S p i es em)))) \<and>
         (\<not> present (handler_slot (snd em) sl) \<longrightarrow>
            handler_slot (snd (taic_init_loop U S p i es em)) sl =
              \<lparr>present = True, priv = p\<rparr>)"
  using assms
proof (induction es arbitrary: i em k)
  case Nil
  then show ?case by simp
next
  case (Cons e es)
  let ?em = "taic_init_context U S p i e em"
  let ?fin = "snd (taic_init_loop U S p (Suc i) es ?em)"
  show ?case
  proof (cases k)
    case 0
    with Cons.prems have e: "entry_slot U S e = Some sl" by simp
    note r = taic_init_context_resolved [OF e, of em i p]
    show ?thesis
    proof (cases "present (handler_slot (snd em) sl)")
      case True
      then have w: "Warn_handler_present i \<in> set (klog (snd ?em))"
        using r by simp
      have s1: "handler_slot (snd ?em) sl = handler_slot (snd em) sl"
        using True by (rule taic_init_context_slot)
      then have "present (handler_slot (snd ?em) sl)"
        using True by simp
      then have "handler_slot ?fin sl = handler_slot (snd ?em) sl"
        by (rule taic_init_loop_slot)
      moreover have "Warn_handler_present i \<in> set (klog ?fin)"
        using w taic_init_loop_klog [of ?em U S p "Suc i" es] by blast
      ultimately show ?thesis
        using True s1 0 by simp
    next
      case False
      then have s1: "handler_slot (snd ?em) sl = \<lparr>present = True, priv = p\<rparr>"
        using r by simp
      then have "present (handler_slot (snd ?em) sl)"
        by simp
      then have "handler_slot ?fin sl = handler_slot (snd ?em) sl"
        by (rule taic_init_loop_slot)
      then show ?thesis
        using False s1 by simp
    qed
  next
    case (Suc k')
    with Cons.prems have k': "k' < length es" and e: "entry_slot U S (es ! k') = Some sl"
      by simp_all
    note ih = Cons.IH [OF k' e, of ?em "Suc i"]
    show ?thesis
    proof (cases "present (handler_slot (snd em) sl)")
      case True
      then have s1: "handler_slot (snd ?em) sl = handler_slot (snd em) sl"
        by (rule taic_init_context_slot)
      then have "present (handler_slot (snd ?em) sl)"
        using True by simp
      with ih s1 True Suc show ?thesis
        by simp
    next
      case False
      from taic_init_context_slot_cases [of U S p i e em sl]
      show ?thesis
      proof
        assume "handler_slot (snd ?em) sl = handler_slot (snd em) sl"
        with False have "\<not> present (handler_slot (snd ?em) sl)" by simp
        with ih False show ?thesis by simp
      next
        assume s1: "handler_slot (snd ?em) sl = \<lparr>present = True, priv = p\<rparr>"
        then have "present (handler_slot (snd ?em) sl)" by simp
        with ih s1 False show ?thesis by simp
      qed
    qed
  qed
qed

lemma taic_init_loop_duplicate:
  assumes "j < k" and "k < length es"
    and "entry_slot U S (es ! j) = Some sl" and "entry_slot U S (es ! k) = Some sl"
  shows "Warn_handler_present (i + k) \<in> set (klog (snd (taic_init_loop U S p i es em)))"
  using assms
proof (induction es arbitrary: i em j k)
  case Nil
  then show ?case by simp
next
  case (Cons e es)
  let ?em = "taic_init_context U S p i e em"
  from Cons.prems(1) obtain k' where k: "k = Suc k'" by (cases k) auto
  with Cons.prems have k': "k' < length es" and ek: "entry_slot U S (es ! k') = Some sl"
    by simp_all
  show ?case
  proof (cases j)
    case 0
    with Cons.prems have e: "entry_slot U S e = Some sl" by simp
    have "present (handler_slot (snd ?em) sl)"
    proof (cases "present (handler_slot (snd em) sl)")
      case True
      then show ?thesis by (simp add: taic_init_context_slot)
    next
      case False
      then show ?thesis
        using taic_init_context_resolved [OF e, of em i p] by simp
    qed
    then show ?thesis
      using taic_init_loop_resolved [OF k' ek, of ?em p "Suc i"] k by simp
  next
    case (Suc j')
    with Cons.prems k have "j' < k'" and "entry_slot U S (es ! j') = Some sl"
      by simp_all
    from Cons.IH [OF this(1) k' this(2) ek, of "Suc i" ?em] k show ?thesis
      by simp
  qed
qed

lemma taic_init_reaches_loop:
  assumes "kz \<noteq> 0" and "of_resource node = Some (rs, rz)" and "io \<noteq> 0" and "of_irqs node \<noteq> []"
  shows "\<exists>m4 (v :: taic_priv). taic_uhandlers m4 = taic_uhandlers m \<and> taic_shandlers m4 = taic_shandlers m \<and>
           taic_init U S kz io node m =
             (0, pr_log (Info_available (gq_num v) (lq_num v))
                   (snd (taic_init_loop U S kz 0 (of_irqs node) (- EINVAL, m4))))"
proof -
  define m1 where "m1 = priv_store kz (\<lambda>v. v\<lparr>regs := io\<rparr>) (priv_store kz (\<lambda>v. v\<lparr>size_r := rz\<rparr>)
      (priv_store kz (\<lambda>v. v\<lparr>start := rs\<rparr>) (m\<lparr>heap := (heap m)(kz := Some zero_priv)\<rparr>)))"
  define m2 where "m2 = m1\<lparr>iomem := insert io (iomem m1)\<rparr>"
  define m3 where "m3 = (case gq_num_prop node of
      Some g \<Rightarrow> priv_store kz (\<lambda>v. v\<lparr>gq_num := g\<rparr>) m2
    | None \<Rightarrow> priv_store kz (\<lambda>v. v\<lparr>gq_num := of_nat DEFAULT_GQ_NUM\<rparr>)
                (pr_log (Warn_gq_num_default DEFAULT_GQ_NUM) m2))"
  define m4 where "m4 = (case lq_num_prop node of
      Some l \<Rightarrow> priv_store kz (\<lambda>v. v\<lparr>lq_num := l\<rparr>) m3
    | None \<Rightarrow> priv_store kz (\<lambda>v. v\<lparr>lq_num := of_nat DEFAULT_LQ_NUM\<rparr>)
                (pr_log (Warn_lq_num_default DEFAULT_LQ_NUM) m3))"
  define em where "em = taic_init_loop U S kz 0 (of_irqs node) (- EINVAL, m4)"
  have tabs: "taic_uhandlers m4 = taic_uhandlers m" "taic_shandlers m4 = taic_shandlers m"
    by (simp_all add: m4_def m3_def m2_def m1_def split: option.split)
  have h4: "map_option priv_fixed (heap m4 kz) =
      Some (io, rs, rz, (case lq_num_prop node of Some l \<Rightarrow> l | None \<Rightarrow> 8),
                (case gq_num_prop node of Some g \<Rightarrow> g | None \<Rightarrow> 4))"
    by (simp add: m4_def m3_def m2_def m1_def priv_fixed_def zero_priv_def
        DEFAULT_GQ_NUM_def DEFAULT_LQ_NUM_def split: option.split)
  have "map_option priv_fixed (heap (snd em) kz) = map_option priv_fixed (heap m4 kz)"
    by (simp add: em_def taic_init_loop_fixed)
  with h4 obtain v where v: "heap (snd em) kz = Some v"
    by (cases "heap (snd em) kz") simp_all
  have "taic_init U S kz io node m =
      (case heap (snd em) kz of None \<Rightarrow> (0, snd em)
       | Some v \<Rightarrow> (0, pr_log (Info_available (gq_num v) (lq_num v)) (snd em)))"
    unfolding taic_init_def Let_def em_def m4_def m3_def m2_def m1_def
    using assms by simp
  with v have r: "taic_init U S kz io node m =
      (0, pr_log (Info_available (gq_num v) (lq_num v))
            (snd (taic_init_loop U S kz 0 (of_irqs node) (- EINVAL, m4))))"
    by (simp add: em_def)
  have "taic_uhandlers m4 = taic_uhandlers m \<and> taic_shandlers m4 = taic_shandlers m \<and>
      taic_init U S kz io node m =
        (0, pr_log (Info_available (gq_num v) (lq_num v))
              (snd (taic_init_loop U S kz 0 (of_irqs node) (- EINVAL, m4))))"
    using tabs r by (simp only: simp_thms)
  then have "\<exists>v :: taic_priv. taic_uhandlers m4 = taic_uhandlers m \<and> taic_shandlers m4 = taic_shandlers m \<and>
      taic_init U S kz io node m =
        (0, pr_log (Info_available (gq_num v) (lq_num v))
              (snd (taic_init_loop U S kz 0 (of_irqs node) (- EINVAL, m4))))"
    by (rule exI)
  then show ?thesis
    by (rule exI)
qed

text \<open>
  C5. A handler slot that is present before a registration holds the same present flag and
  the same instance pointer after it, at user and at supervisor level, whatever the node
  declares and however the registration ends. When the registration reaches its loop and
  entry \<open>i\<close> of the node resolves to a slot: if the slot was present before, it is unchanged
  and the log of the finished registration holds the warning for context \<open>i\<close>; if it was
  free, it is present afterwards and points to the new instance, whatever conflicts came
  before entry \<open>i\<close>; and if an earlier entry of the same node resolves to the same slot, the
  log holds the warning for context \<open>i\<close>.
\<close>

theorem taic_init_keeps_claimed_slot:
  "(present (taic_uhandlers m c) \<longrightarrow>
      taic_uhandlers (snd (taic_init U S kz io node m)) c = taic_uhandlers m c) \<and>
   (present (taic_shandlers m c) \<longrightarrow>
      taic_shandlers (snd (taic_init U S kz io node m)) c = taic_shandlers m c) \<and>
   (kz \<noteq> 0 \<and> of_resource node = Some (rs, rz) \<and> io \<noteq> 0 \<and> i < length (of_irqs node) \<and>
    entry_slot U S (of_irqs node ! i) = Some sl \<longrightarrow>
      (present (handler_slot m sl) \<longrightarrow>
         handler_slot (snd (taic_init U S kz io node m)) sl = handler_slot m sl \<and>
         Warn_handler_present i \<in> set (klog (snd (taic_init U S kz io node m)))) \<and>
      (\<not> present (handler_slot m sl) \<longrightarrow>
         handler_slot (snd (taic_init U S kz io node m)) sl = \<lparr>present = True, priv = kz\<rparr>) \<and>
      (\<forall>j<i. entry_slot U S (of_irqs node ! j) = Some sl \<longrightarrow>
         Warn_handler_present i \<in> set (klog (snd (taic_init U S kz io node m)))))"
proof (rule conjI [OF _ conjI]; rule impI)
  assume "present (taic_uhandlers m c)"
  then show "taic_uhandlers (snd (taic_init U S kz io node m)) c = taic_uhandlers m c"
    by (simp add: taic_init_def Let_def taic_init_loop_uslot split: option.split prod.split)
next
  assume "present (taic_shandlers m c)"
  then show "taic_shandlers (snd (taic_init U S kz io node m)) c = taic_shandlers m c"
    by (simp add: taic_init_def Let_def taic_init_loop_sslot split: option.split prod.split)
next
  assume a: "kz \<noteq> 0 \<and> of_resource node = Some (rs, rz) \<and> io \<noteq> 0 \<and> i < length (of_irqs node) \<and>
    entry_slot U S (of_irqs node ! i) = Some sl"
  then have ne: "of_irqs node \<noteq> []" by auto
  from a have i: "i < length (of_irqs node)" and e: "entry_slot U S (of_irqs node ! i) = Some sl"
    by simp_all
  from a have "kz \<noteq> 0" and "of_resource node = Some (rs, rz)" and "io \<noteq> 0"
    by simp_all
  from taic_init_reaches_loop [OF this ne, of m U S]
  obtain m4 and v :: taic_priv where tabs: "taic_uhandlers m4 = taic_uhandlers m"
      "taic_shandlers m4 = taic_shandlers m"
    and res: "taic_init U S kz io node m =
             (0, pr_log (Info_available (gq_num v) (lq_num v))
                   (snd (taic_init_loop U S kz 0 (of_irqs node) (- EINVAL, m4))))"
    by (elim exE conjE) (rule that)
  let ?fin = "snd (taic_init_loop U S kz 0 (of_irqs node) (- EINVAL, m4))"
  have hs: "handler_slot (snd (taic_init U S kz io node m)) sl = handler_slot ?fin sl"
    and kl: "set (klog ?fin) \<subseteq> set (klog (snd (taic_init U S kz io node m)))"
    by (simp_all add: res handler_slot_def subset_iff)
  have h4: "handler_slot (snd (- EINVAL, m4)) sl = handler_slot m sl"
    by (simp add: handler_slot_def tabs)
  note r = taic_init_loop_resolved [OF i e, of "(- EINVAL, m4)" kz 0]
  show "(present (handler_slot m sl) \<longrightarrow>
         handler_slot (snd (taic_init U S kz io node m)) sl = handler_slot m sl \<and>
         Warn_handler_present i \<in> set (klog (snd (taic_init U S kz io node m)))) \<and>
      (\<not> present (handler_slot m sl) \<longrightarrow>
         handler_slot (snd (taic_init U S kz io node m)) sl = \<lparr>present = True, priv = kz\<rparr>) \<and>
      (\<forall>j<i. entry_slot U S (of_irqs node ! j) = Some sl \<longrightarrow>
         Warn_handler_present i \<in> set (klog (snd (taic_init U S kz io node m))))"
  proof (intro conjI impI allI)
    assume "present (handler_slot m sl)"
    with r h4 hs show "handler_slot (snd (taic_init U S kz io node m)) sl = handler_slot m sl"
      by simp
  next
    assume "present (handler_slot m sl)"
    with r h4 have "Warn_handler_present i \<in> set (klog ?fin)" by simp
    with kl show "Warn_handler_present i \<in> set (klog (snd (taic_init U S kz io node m)))"
      by blast
  next
    assume "\<not> present (handler_slot m sl)"
    with r h4 hs show "handler_slot (snd (taic_init U S kz io node m)) sl =
        \<lparr>present = True, priv = kz\<rparr>"
      by simp
  next
    fix j assume "j < i" and "entry_slot U S (of_irqs node ! j) = Some sl"
    from taic_init_loop_duplicate [OF this(1) i this(2) e, of 0 kz "(- EINVAL, m4)"]
    have "Warn_handler_present i \<in> set (klog ?fin)" by simp
    with kl show "Warn_handler_present i \<in> set (klog (snd (taic_init U S kz io node m)))"
      by blast
  qed
qed


theorem taic_init_keeps_claimed_slot_witness:
  "(2 :: nat) \<noteq> 0 \<and> of_resource ex_node2 = Some (0x20000000, 0x1000000) \<and>
   (0xffffffc900000000 :: u64) \<noteq> 0 \<and> length (of_irqs ex_node2) = 4 \<and>
   present (taic_uhandlers ex_machine 1) \<and>
   taic_uhandlers (snd (taic_init 0 1 2 0xffffffc900000000 ex_node2 ex_machine)) 1 =
     taic_uhandlers ex_machine 1 \<and>
   entry_slot 0 1 (of_irqs ex_node2 ! 0) = Some (True, 1) \<and>
   present (handler_slot ex_machine (True, 1)) \<and>
   handler_slot (snd (taic_init 0 1 2 0xffffffc900000000 ex_node2 ex_machine)) (True, 1) =
     \<lparr>present = True, priv = 1\<rparr> \<and>
   Warn_handler_present 0 \<in>
     set (klog (snd (taic_init 0 1 2 0xffffffc900000000 ex_node2 ex_machine))) \<and>
   entry_slot 0 1 (of_irqs ex_node2 ! 1) = Some (True, 2) \<and>
   \<not> present (handler_slot ex_machine (True, 2)) \<and>
   handler_slot (snd (taic_init 0 1 2 0xffffffc900000000 ex_node2 ex_machine)) (True, 2) =
     \<lparr>present = True, priv = 2\<rparr> \<and>
   entry_slot 0 1 (of_irqs ex_node2 ! 2) = Some (False, 0) \<and>
   present (handler_slot ex_machine (False, 0)) \<and>
   Warn_handler_present 2 \<in>
     set (klog (snd (taic_init 0 1 2 0xffffffc900000000 ex_node2 ex_machine))) \<and>
   entry_slot 0 1 (of_irqs ex_node2 ! 3) = Some (True, 2) \<and>
   Warn_handler_present 3 \<in>
     set (klog (snd (taic_init 0 1 2 0xffffffc900000000 ex_node2 ex_machine)))"
proof -
  let ?m' = "snd (taic_init 0 1 2 0xffffffc900000000 ex_node2 ex_machine)"
  have nd: "of_resource ex_node2 = Some (0x20000000, 0x1000000)" "length (of_irqs ex_node2) = 4"
    by (simp_all add: ex_node2_def)
  have es: "entry_slot 0 1 (of_irqs ex_node2 ! 0) = Some (True, 1)"
    "entry_slot 0 1 (of_irqs ex_node2 ! 1) = Some (True, 2)"
    "entry_slot 0 1 (of_irqs ex_node2 ! 2) = Some (False, 0)"
    "entry_slot 0 1 (of_irqs ex_node2 ! 3) = Some (True, 2)"
    by (simp_all add: ex_node2_def entry_slot_def)
  have hs: "handler_slot ex_machine (True, 1) = \<lparr>present = True, priv = 1\<rparr>"
    "\<not> present (handler_slot ex_machine (True, 2))"
    "present (handler_slot ex_machine (False, 0))"
    by (simp_all add: handler_slot_def ex_machine_sel)
  have u1: "present (taic_uhandlers ex_machine 1)"
    by (simp add: ex_machine_sel)
  note t = taic_init_keeps_claimed_slot [where m = ex_machine and U = 0 and S = 1
      and kz = 2 and io = "0xffffffc900000000" and node = ex_node2 and rs = "0x20000000"
      and rz = "0x1000000"]
  have a: "taic_uhandlers ?m' 1 = taic_uhandlers ex_machine 1"
    using t [where c = 1] u1 by simp
  have b: "handler_slot ?m' (True, 1) = \<lparr>present = True, priv = 1\<rparr>"
    "Warn_handler_present 0 \<in> set (klog ?m')"
    using t [where i = 0 and sl = "(True, 1)"] nd es hs by simp_all
  have c: "handler_slot ?m' (True, 2) = \<lparr>present = True, priv = 2\<rparr>"
    using t [where i = 1 and sl = "(True, 2)"] nd es hs by simp
  have d: "Warn_handler_present 2 \<in> set (klog ?m')"
    using t [where i = 2 and sl = "(False, 0)"] nd es hs by simp
  have "\<forall>j<3. entry_slot 0 1 (of_irqs ex_node2 ! j) = Some (True, 2) \<longrightarrow>
      Warn_handler_present 3 \<in> set (klog ?m')"
    using t [where i = 3 and sl = "(True, 2)"] nd es hs by simp
  from this [rule_format, of 1] es have e: "Warn_handler_present 3 \<in> set (klog ?m')"
    by simp
  show ?thesis
    using nd es hs u1 a b c d e by simp
qed

text \<open>
  C8. When the allocation succeeds, the node has a register window, the window maps and the
  node declares at least one routing entry, registration returns 0, the instance stays
  allocated with the mapped base, the window and its capacities (8 local and 4 global queues
  when the node gives none), and the window stays mapped. This holds even when every entry
  is skipped, and then both handler tables are as they were: no slot was claimed.
\<close>

theorem taic_init_succeeds:
  assumes "kz \<noteq> 0" and "of_resource node = Some (rs, rz)" and "io \<noteq> 0" and "of_irqs node \<noteq> []"
  shows "fst (taic_init U S kz io node m) = 0 \<and>
         (\<exists>v. heap (snd (taic_init U S kz io node m)) kz = Some v \<and> regs v = io \<and>
              start v = rs \<and> size_r v = rz \<and>
              lq_num v = (case lq_num_prop node of Some l \<Rightarrow> l | None \<Rightarrow> 8) \<and>
              gq_num v = (case gq_num_prop node of Some g \<Rightarrow> g | None \<Rightarrow> 4)) \<and>
         io \<in> iomem (snd (taic_init U S kz io node m)) \<and>
         (list_all (entry_skipped U S m) (of_irqs node) \<longrightarrow>
            taic_uhandlers (snd (taic_init U S kz io node m)) = taic_uhandlers m \<and>
            taic_shandlers (snd (taic_init U S kz io node m)) = taic_shandlers m)"
proof -
  define m1 where "m1 = priv_store kz (\<lambda>v. v\<lparr>regs := io\<rparr>) (priv_store kz (\<lambda>v. v\<lparr>size_r := rz\<rparr>)
      (priv_store kz (\<lambda>v. v\<lparr>start := rs\<rparr>) (m\<lparr>heap := (heap m)(kz := Some zero_priv)\<rparr>)))"
  define m2 where "m2 = m1\<lparr>iomem := insert io (iomem m1)\<rparr>"
  define m3 where "m3 = (case gq_num_prop node of
      Some g \<Rightarrow> priv_store kz (\<lambda>v. v\<lparr>gq_num := g\<rparr>) m2
    | None \<Rightarrow> priv_store kz (\<lambda>v. v\<lparr>gq_num := of_nat DEFAULT_GQ_NUM\<rparr>)
                (pr_log (Warn_gq_num_default DEFAULT_GQ_NUM) m2))"
  define m4 where "m4 = (case lq_num_prop node of
      Some l \<Rightarrow> priv_store kz (\<lambda>v. v\<lparr>lq_num := l\<rparr>) m3
    | None \<Rightarrow> priv_store kz (\<lambda>v. v\<lparr>lq_num := of_nat DEFAULT_LQ_NUM\<rparr>)
                (pr_log (Warn_lq_num_default DEFAULT_LQ_NUM) m3))"
  define em where "em = taic_init_loop U S kz 0 (of_irqs node) (- EINVAL, m4)"
  have m4_tabs: "taic_uhandlers m4 = taic_uhandlers m" "taic_shandlers m4 = taic_shandlers m"
    by (simp_all add: m4_def m3_def m2_def m1_def split: option.split)
  have m4_io: "io \<in> iomem m4"
    by (simp add: m4_def m3_def m2_def split: option.split)
  have m4_heap: "map_option priv_fixed (heap m4 kz) =
      Some (io, rs, rz, (case lq_num_prop node of Some l \<Rightarrow> l | None \<Rightarrow> 8),
                (case gq_num_prop node of Some g \<Rightarrow> g | None \<Rightarrow> 4))"
    by (simp add: m4_def m3_def m2_def m1_def priv_fixed_def zero_priv_def
        DEFAULT_GQ_NUM_def DEFAULT_LQ_NUM_def split: option.split)
  have res: "taic_init U S kz io node m =
      (case heap (snd em) kz of None \<Rightarrow> (0, snd em)
       | Some v \<Rightarrow> (0, pr_log (Info_available (gq_num v) (lq_num v)) (snd em)))"
    unfolding taic_init_def Let_def em_def m4_def m3_def m2_def m1_def
    using assms by simp
  have em_heap: "map_option priv_fixed (heap (snd em) kz) = map_option priv_fixed (heap m4 kz)"
    by (simp add: em_def taic_init_loop_fixed)
  then obtain v where v: "heap (snd em) kz = Some v" and fx: "priv_fixed v =
      (io, rs, rz, (case lq_num_prop node of Some l \<Rightarrow> l | None \<Rightarrow> 8),
                (case gq_num_prop node of Some g \<Rightarrow> g | None \<Rightarrow> 4))"
    using m4_heap by auto
  have r: "taic_init U S kz io node m =
      (0, pr_log (Info_available (gq_num v) (lq_num v)) (snd em))"
    using res v by simp
  have io: "io \<in> iomem (snd em)"
    using m4_io by (simp add: em_def taic_init_loop_frame)
  have skip: "taic_uhandlers (snd em) = taic_uhandlers m \<and> taic_shandlers (snd em) = taic_shandlers m"
    if "list_all (entry_skipped U S m) (of_irqs node)"
  proof -
    have "entry_skipped U S m4 = entry_skipped U S m"
      by (simp add: fun_eq_iff entry_skipped_def m4_tabs)
    with that have "list_all (entry_skipped U S (snd (- EINVAL, m4))) (of_irqs node)"
      by simp
    from taic_init_loop_skipped [OF this, of kz 0] m4_tabs show ?thesis
      by (simp add: em_def)
  qed
  show ?thesis
    using r v fx io skip by (simp add: priv_fixed_def)
qed


theorem taic_init_succeeds_witness:
  "(2 :: nat) \<noteq> 0 \<and> of_resource ex_node = Some (0x20000000, 0x1000000) \<and>
   (0xffffffc900000000 :: u64) \<noteq> 0 \<and> of_irqs ex_node \<noteq> [] \<and>
   list_all (entry_skipped 0 1 ex_machine) (of_irqs ex_node) \<and>
   fst (taic_init 0 1 2 0xffffffc900000000 ex_node ex_machine) = 0 \<and>
   (\<exists>v. heap (snd (taic_init 0 1 2 0xffffffc900000000 ex_node ex_machine)) 2 = Some v \<and>
        regs v = 0xffffffc900000000 \<and> lq_num v = 8 \<and> gq_num v = 4) \<and>
   0xffffffc900000000 \<in> iomem (snd (taic_init 0 1 2 0xffffffc900000000 ex_node ex_machine)) \<and>
   taic_uhandlers (snd (taic_init 0 1 2 0xffffffc900000000 ex_node ex_machine)) =
     taic_uhandlers ex_machine \<and>
   taic_shandlers (snd (taic_init 0 1 2 0xffffffc900000000 ex_node ex_machine)) =
     taic_shandlers ex_machine"
proof -
  have sk: "list_all (entry_skipped 0 1 ex_machine) (of_irqs ex_node)"
    by (simp add: ex_node_def entry_skipped_def ex_machine_sel)
  have nd: "of_resource ex_node = Some (0x20000000, 0x1000000)" "of_irqs ex_node \<noteq> []"
    "lq_num_prop ex_node = None" "gq_num_prop ex_node = None"
    by (simp_all add: ex_node_def)
  show ?thesis
    using taic_init_succeeds [of 2 ex_node "0x20000000" "0x1000000" "0xffffffc900000000"
        0 1 ex_machine] sk nd
    by auto
qed

section \<open>The ownership invariant\<close>

lemma run_append:
  "run IE (xs @ ys) s = (case run IE xs s of None \<Rightarrow> None | Some s' \<Rightarrow> run IE ys s')"
  by (induction xs arbitrary: s) (auto split: option.splits)

lemma run_enables:
  assumes "list_all is_Enable xs" and "is_uintr_enabled t"
  shows "run IE xs (t, m) = Some (t, m)"
  using assms
proof (induction xs)
  case Nil
  then show ?case by simp
next
  case (Cons x xs)
  then obtain lq where "x = Enable lq" by (cases x) auto
  with Cons show ?case by (simp add: uintr_enable_def)
qed

lemma resident_append: "resident r (xs @ ys) = resident (resident r xs) ys"
  by (induction r xs rule: resident.induct) auto

lemma resident_enables: "list_all is_Enable xs \<Longrightarrow> resident r xs = r"
  by (induction r xs rule: resident.induct) auto

text \<open>
  C1, as amended. Take an enabled context and a core whose user-level slot is present. After
  a trap exit on that core, followed only by enablement calls, the context is resident on the
  core and the ownership register of its slot holds the core's identifier. After a trap entry
  on that core, followed only by enablement calls, the context is resident nowhere and the
  register holds all ones. An enablement call on an enabled context changes neither the task
  nor the machine, and no enablement call writes a register: whatever the register held
  before the call is still there after it.
\<close>

theorem published_owner_after_hook:
  assumes "run IE pre s0 = Some (t, m)"
    and "is_uintr_enabled t"
    and "present (taic_uhandlers m cpu)"
    and "heap m (priv (taic_uhandlers m cpu)) = Some v"
    and "list_all is_Enable post"
  shows "(\<exists>m'. run IE (pre @ Trap_exit cpu rg # post) s0 = Some (t, m') \<and>
            resident r (pre @ Trap_exit cpu rg # post) = Some cpu \<and>
            published_owner_ok (Some cpu) t m' v) \<and>
         (\<exists>m'. run IE (pre @ Trap_entry cpu rg # post) s0 = Some (t, m') \<and>
            resident r (pre @ Trap_entry cpu rg # post) = None \<and>
            published_owner_ok None t m' v) \<and>
         run IE (pre @ Enable lq # post) s0 = Some (t, m) \<and>
         (\<exists>u'. do_step IE (Enable lq) (u, n) = Some (u', n))"
proof -
  obtain m1 where s: "uintr_set IE cpu rg t m = Some m1"
    and s_mmio: "mmio m1 = (mmio m)(lq_owner_reg v (lq_idx (thread t)) := of_nat cpu)"
    using uintr_set_enabled_mmio [OF assms(2-4)] by blast
  have c: "uintr_clear cpu rg t m = Some (writeq (- 1) (lq_owner_reg v (lq_idx (thread t))) m)"
    using assms(2-4) by (rule uintr_clear_enabled)
  have e: "snd (uintr_enable lq t) = t"
    using assms(2) by (simp add: uintr_enable_def)
  show ?thesis
    using assms(1) s s_mmio c e run_enables [OF assms(5) assms(2)]
    by (simp add: run_append resident_append resident_enables [OF assms(5)]
        published_owner_ok_def)
qed

theorem published_owner_after_hook_witness:
  "run 1 [Enable 3] (ex_task, ex_machine) = Some (ex_enabled, ex_machine) \<and>
   is_uintr_enabled ex_enabled \<and> present (taic_uhandlers ex_machine 1) \<and>
   heap ex_machine (priv (taic_uhandlers ex_machine 1)) = Some ex_priv \<and>
   list_all is_Enable [Enable 5] \<and>
   lq_owner_reg ex_priv (lq_idx (thread ex_enabled)) = 0xffffffc800004038 \<and>
   (\<exists>m'. run 1 [Enable 3, Trap_exit 1 ex_regs, Enable 5] (ex_task, ex_machine) =
            Some (ex_enabled, m') \<and>
      resident None [Enable 3, Trap_exit 1 ex_regs, Enable 5] = Some 1 \<and>
      mmio m' 0xffffffc800004038 = 1) \<and>
   (\<exists>m'. run 1 [Enable 3, Trap_entry 1 ex_regs, Enable 5] (ex_task, ex_machine) =
            Some (ex_enabled, m') \<and>
      resident None [Enable 3, Trap_entry 1 ex_regs, Enable 5] = None \<and>
      mmio m' 0xffffffc800004038 = - 1)"
proof -
  have r: "run 1 [Enable 3] (ex_task, ex_machine) = Some (ex_enabled, ex_machine)"
    by (simp add: ex_enabled_def)
  have en: "is_uintr_enabled ex_enabled"
    by (simp add: ex_enabled_def ex_task_def is_uintr_enabled_def uintr_enable_def)
  have pr: "present (taic_uhandlers ex_machine 1)"
    "heap ex_machine (priv (taic_uhandlers ex_machine 1)) = Some ex_priv"
    by (simp_all add: ex_machine_sel)
  have po: "list_all is_Enable [Enable 5]"
    by simp
  have a: "lq_owner_reg ex_priv (lq_idx (thread ex_enabled)) = 0xffffffc800004038"
    by (simp add: ex_enabled_def ex_task_def is_uintr_enabled_def uintr_enable_def
        lq_owner_reg_def lq_owner_offset_def ex_priv_def drop_bit_eq_div)
  show ?thesis
    using published_owner_after_hook [OF r en pr po, of ex_regs None 5] r en pr po a
    by (simp del: run.simps resident.simps add: published_owner_ok_def)
qed

text \<open>
  The invariant fails in two ways on the example machine, whose device memory holds zero.
  Between the enablement call and the first trap exit or trap entry the context is enabled
  and resident nowhere, and the ownership register of its slot holds 0, not all ones. And
  after a trap exit on core 2, which has no user-level slot, the context is resident on
  core 2 and the register still holds 0, not 2.
\<close>

theorem published_owner_counterexample:
  "run 1 [Enable 3] (ex_task, ex_machine) = Some (ex_enabled, ex_machine) \<and>
   is_uintr_enabled ex_enabled \<and>
   present (taic_uhandlers ex_machine 0) \<and>
   heap ex_machine (priv (taic_uhandlers ex_machine 0)) = Some ex_priv \<and>
   resident None [Enable 3] = None \<and>
   mmio ex_machine (lq_owner_reg ex_priv (lq_idx (thread ex_enabled))) = 0 \<and>
   \<not> published_owner_ok (resident None [Enable 3]) ex_enabled ex_machine ex_priv \<and>
   \<not> present (taic_uhandlers ex_machine 2) \<and>
   run 1 [Enable 3, Trap_exit 2 ex_regs] (ex_task, ex_machine) = Some (ex_enabled, ex_exit2) \<and>
   resident None [Enable 3, Trap_exit 2 ex_regs] = Some 2 \<and>
   mmio ex_exit2 (lq_owner_reg ex_priv (lq_idx (thread ex_enabled))) = 0 \<and>
   \<not> published_owner_ok (resident None [Enable 3, Trap_exit 2 ex_regs]) ex_enabled ex_exit2
        ex_priv"
  using ex_exit2_run
  by (simp add: ex_enabled_sel ex_enabled_def [symmetric] ex_machine_sel ex_exit2_sel
      published_owner_ok_def)

end
